theory Spec2Isabelle
  imports Complex_Main "HOL-Library.Char_ord" "HOL-Library.List_Lexorder"
begin

section \<open>Python values\<close>

text \<open>
  The pipeline passes tweets around as dictionaries from string keys to arbitrary Python
  values. The values that occur are \<^verbatim>\<open>None\<close>, booleans, integers, floats (modelled as
  reals), strings and lists. A string is a list of characters, each read as a code point
  below 256.
\<close>

datatype pyval = PNone | PBool bool | PInt int | PFloat real | PStr string | PList "pyval list"

type_synonym pydict = "string \<rightharpoonup> pyval"

datatype error =
    KeyError | TypeError | TextBlobError
  | InterfaceError | OverflowError | IntegrityError | OperationalError | ProgrammingError

text \<open>\<^verbatim>\<open>d.get(k)\<close> and \<^verbatim>\<open>d.get(k, default)\<close>.\<close>

definition get :: "pydict \<Rightarrow> string \<Rightarrow> pyval" where
  "get d k = (case d k of None \<Rightarrow> PNone | Some v \<Rightarrow> v)"

definition get_default :: "pydict \<Rightarrow> string \<Rightarrow> pyval \<Rightarrow> pyval" where
  "get_default d k dflt = (case d k of None \<Rightarrow> dflt | Some v \<Rightarrow> v)"

text \<open>Truth value of a Python object, as \<^verbatim>\<open>if x\<close>, \<^verbatim>\<open>not x\<close> and \<^verbatim>\<open>x or y\<close> test it.\<close>

fun truthy :: "pyval \<Rightarrow> bool" where
  "truthy PNone = False"
| "truthy (PBool b) = b"
| "truthy (PInt i) = (i \<noteq> 0)"
| "truthy (PFloat r) = (r \<noteq> 0)"
| "truthy (PStr s) = (s \<noteq> [])"
| "truthy (PList xs) = (xs \<noteq> [])"

definition py_or :: "pyval \<Rightarrow> pyval \<Rightarrow> pyval" where
  "py_or a b = (if truthy a then a else b)"

fun is_str :: "pyval \<Rightarrow> bool" where
  "is_str (PStr s) = True"
| "is_str v = False"

text \<open>
  \<^verbatim>\<open>str.strip()\<close> removes leading and trailing whitespace; below 256 the whitespace code
  points of Python are 9 to 13, 28 to 32, 133 and 160. \<^verbatim>\<open>str.lower()\<close> maps the capital
  letters below 256 (65 to 90, 192 to 214, 216 to 222) to the letter 32 places further.
\<close>

definition py_space :: "char \<Rightarrow> bool" where
  "py_space c = (let n = (of_char c :: nat)
                 in (9 \<le> n \<and> n \<le> 13) \<or> (28 \<le> n \<and> n \<le> 32) \<or> n = 133 \<or> n = 160)"

definition strip :: "string \<Rightarrow> string" where
  "strip s = rev (dropWhile py_space (rev (dropWhile py_space s)))"

definition lower_char :: "char \<Rightarrow> char" where
  "lower_char c = (let n = (of_char c :: nat)
                   in if (65 \<le> n \<and> n \<le> 90) \<or> (192 \<le> n \<and> n \<le> 214) \<or> (216 \<le> n \<and> n \<le> 222)
                      then char_of (n + 32) else c)"

definition lower :: "string \<Rightarrow> string" where
  "lower s = map lower_char s"

section \<open>Sentiment analyzer (src/transform/sentiment\_analyzer.py)\<close>

text \<open>
  The dictionary \<^verbatim>\<open>analyze_sentiment\<close> returns. The first early return has no
  \<^verbatim>\<open>cleaned_text\<close> key, hence the option.
\<close>

record sentiment =
  sentiment_score :: real
  sentiment_polarity :: real
  sentiment_subjectivity :: real
  sentiment_category :: string
  confidence :: real
  cleaned_text :: "string option"

text \<open>
  TextBlob is an external library: \<open>TextBlob(cleaned).sentiment\<close> is a parameter of the
  model, a function from the cleaned text to the pair (polarity, subjectivity) that may
  raise.
\<close>

type_synonym textblob = "string \<Rightarrow> error + real \<times> real"

text \<open>\<^verbatim>\<open>self.thresholds = thresholds or {'positive': 0.1, 'negative': -0.1}\<close>\<close>

definition default_thresholds :: "string \<rightharpoonup> real" where
  "default_thresholds = [''positive'' \<mapsto> 1 / 10, ''negative'' \<mapsto> - (1 / 10)]"

definition init_thresholds :: "(string \<rightharpoonup> real) option \<Rightarrow> (string \<rightharpoonup> real)" where
  "init_thresholds thresholds =
     (case thresholds of
        None \<Rightarrow> default_thresholds
      | Some th \<Rightarrow> if th = Map.empty then default_thresholds else th)"

text \<open>\<^verbatim>\<open>self.thresholds[k]\<close> raises KeyError on a missing key.\<close>

definition subscript :: "(string \<rightharpoonup> real) \<Rightarrow> string \<Rightarrow> error + real" where
  "subscript th k = (case th k of None \<Rightarrow> Inl KeyError | Some v \<Rightarrow> Inr v)"

text \<open>The \<^verbatim>\<open>if/elif/else\<close> that categorises: the second threshold is read only when the
  first comparison fails.\<close>

definition categorize :: "(string \<rightharpoonup> real) \<Rightarrow> real \<Rightarrow> error + string" where
  "categorize th polarity =
     (case subscript th ''positive'' of
        Inl e \<Rightarrow> Inl e
      | Inr pos \<Rightarrow>
          if polarity > pos then Inr ''positive''
          else (case subscript th ''negative'' of
                  Inl e \<Rightarrow> Inl e
                | Inr neg \<Rightarrow> if polarity < neg then Inr ''negative'' else Inr ''neutral''))"

text \<open>The body of the \<^verbatim>\<open>try\<close> block (lines 43 to 66).\<close>

definition analyze_try :: "textblob \<Rightarrow> (string \<rightharpoonup> real) \<Rightarrow> string \<Rightarrow> error + sentiment" where
  "analyze_try blob th text =
     (let cleaned = strip text
      in case blob cleaned of
           Inl e \<Rightarrow> Inl e
         | Inr (polarity, subjectivity) \<Rightarrow>
             (case categorize th polarity of
                Inl e \<Rightarrow> Inl e
              | Inr category \<Rightarrow>
                  Inr \<lparr> sentiment_score = polarity,
                        sentiment_polarity = polarity,
                        sentiment_subjectivity = subjectivity,
                        sentiment_category = category,
                        confidence = (if category \<noteq> ''neutral'' then \<bar>polarity\<bar>
                                      else 1 - \<bar>polarity\<bar>),
                        cleaned_text = Some (take 100 cleaned) \<rparr>))"

text \<open>The two constant dictionaries: the early return (lines 34 to 40) and the
  \<^verbatim>\<open>except\<close> branch (lines 70 to 77).\<close>

definition invalid_input_result :: sentiment where
  "invalid_input_result =
     \<lparr> sentiment_score = 0, sentiment_polarity = 0, sentiment_subjectivity = 0,
       sentiment_category = ''neutral'', confidence = 0, cleaned_text = None \<rparr>"

definition error_result :: sentiment where
  "error_result =
     \<lparr> sentiment_score = 0, sentiment_polarity = 0, sentiment_subjectivity = 0,
       sentiment_category = ''neutral'', confidence = 0, cleaned_text = Some [] \<rparr>"

text \<open>
  \<^verbatim>\<open>analyze_sentiment\<close>. The result is a sum so that an exception leaving the method would
  be the value \<open>Inl\<close>.
\<close>

definition analyze_sentiment :: "textblob \<Rightarrow> (string \<rightharpoonup> real) \<Rightarrow> pyval \<Rightarrow> error + sentiment" where
  "analyze_sentiment blob th text =
     (if \<not> truthy text \<or> \<not> is_str text then Inr invalid_input_result
      else (case text of
              PStr s \<Rightarrow> (case analyze_try blob th s of
                           Inl e \<Rightarrow> Inr error_result
                         | Inr r \<Rightarrow> Inr r)
            | _ \<Rightarrow> Inr invalid_input_result))"

subsection \<open>analyze\_tweets over a store of dictionary objects\<close>

text \<open>
  Python dictionaries are mutable objects held by reference. The object store is a list of
  dictionaries, an address is an index into it, and a list of tweets is a list of
  addresses. \<^verbatim>\<open>tweet.copy()\<close> allocates a new object at the end of the store;
  \<^verbatim>\<open>analyzed.update({...})\<close> overwrites the object at the address of the copy.
\<close>

type_synonym heap = "pydict list"

definition sentiment_update :: "sentiment \<Rightarrow> pydict" where
  "sentiment_update s =
     [''sentiment_score'' \<mapsto> PFloat (sentiment_score s),
      ''sentiment_polarity'' \<mapsto> PFloat (sentiment_polarity s),
      ''sentiment_subjectivity'' \<mapsto> PFloat (sentiment_subjectivity s),
      ''sentiment_category'' \<mapsto> PStr (sentiment_category s),
      ''sentiment_confidence'' \<mapsto> PFloat (confidence s)]"

definition sentiment_keys :: "string set" where
  "sentiment_keys = {''sentiment_score'', ''sentiment_polarity'', ''sentiment_subjectivity'',
                     ''sentiment_category'', ''sentiment_confidence''}"

definition tweet_text :: "pydict \<Rightarrow> pyval" where
  "tweet_text tweet = py_or (get tweet ''text'') (get_default tweet ''content'' (PStr []))"

fun analyze_loop :: "textblob \<Rightarrow> (string \<rightharpoonup> real) \<Rightarrow> heap \<Rightarrow> nat list \<Rightarrow> error + heap \<times> nat list" where
  "analyze_loop blob th h [] = Inr (h, [])"
| "analyze_loop blob th h (a # as) =
     (let tweet = h ! a;
          analyzed = length h;
          h1 = h @ [tweet];
          text = tweet_text tweet
      in case analyze_sentiment blob th text of
           Inl e \<Rightarrow> Inl e
         | Inr s \<Rightarrow>
             (let h2 = h1[analyzed := (h1 ! analyzed) ++ sentiment_update s]
              in case analyze_loop blob th h2 as of
                   Inl e \<Rightarrow> Inl e
                 | Inr (h3, out) \<Rightarrow> Inr (h3, analyzed # out)))"

definition analyze_tweets :: "textblob \<Rightarrow> (string \<rightharpoonup> real) \<Rightarrow> heap \<Rightarrow> nat list \<Rightarrow> error + heap \<times> nat list" where
  "analyze_tweets blob th h tweets = (if tweets = [] then Inr (h, []) else analyze_loop blob th h tweets)"

section \<open>SQLite values and tables (src/load/database\_loader.py)\<close>

text \<open>
  A value stored in SQLite is NULL, an integer, a real or a text. The sqlite3 module
  binds \<^verbatim>\<open>None\<close> to NULL, a bool or an int to an integer (an int outside 64 bits
  raises OverflowError), a float to a real and a str to a text; a list cannot be bound
  and raises (InterfaceError, ProgrammingError from Python 3.11 on).
\<close>

datatype sqlval = SNull | SInt int | SReal real | SText string

fun bind :: "pyval \<Rightarrow> error + sqlval" where
  "bind PNone = Inr SNull"
| "bind (PBool b) = Inr (SInt (if b then 1 else 0))"
| "bind (PInt i) = (if - (2 ^ 63) \<le> i \<and> i < 2 ^ 63 then Inr (SInt i) else Inl OverflowError)"
| "bind (PFloat r) = Inr (SReal r)"
| "bind (PStr s) = Inr (SText s)"
| "bind (PList xs) = Inl InterfaceError"

fun bind_params :: "pyval list \<Rightarrow> error + sqlval list" where
  "bind_params [] = Inr []"
| "bind_params (p # ps) =
     (case bind p of
        Inl e \<Rightarrow> Inl e
      | Inr v \<Rightarrow> (case bind_params ps of Inl e \<Rightarrow> Inl e | Inr vs \<Rightarrow> Inr (v # vs)))"

text \<open>
  What the code takes from its surroundings: the clock of Python
  (\<^verbatim>\<open>datetime.now().isoformat()\<close> and \<^verbatim>\<open>strftime('%Y-%m-%d')\<close>), the clock of SQLite
  (\<^verbatim>\<open>CURRENT_TIMESTAMP\<close>), and three functions of the SQLite engine: the text it gives a
  real stored in a TEXT column, the value of \<^verbatim>\<open>DATE(created_at)\<close> for a stored
  \<^verbatim>\<open>created_at\<close>, and the number \<^verbatim>\<open>AVG\<close> reads from a stored value that is not NULL.
\<close>

record env =
  now :: string
  today :: string
  sql_now :: string
  real_text :: "real \<Rightarrow> string"
  sql_date :: "sqlval \<Rightarrow> sqlval"
  sql_num :: "sqlval \<Rightarrow> real"

text \<open>Decimal text of an integer, as SQLite stores an integer in a TEXT column.\<close>

fun digits :: "nat \<Rightarrow> string" where
  "digits n = (if n < 10 then [char_of (48 + n)]
               else digits (n div 10) @ [char_of (48 + n mod 10)])"

declare digits.simps [simp del]

definition int_text :: "int \<Rightarrow> string" where
  "int_text i = (if i < 0 then CHR ''-'' # digits (nat (- i)) else digits (nat i))"

text \<open>
  Column affinity TEXT: a number is converted to text when it is stored in the column and
  when it is compared with the column.
\<close>

definition text_affinity :: "env \<Rightarrow> sqlval \<Rightarrow> sqlval" where
  "text_affinity env v =
     (case v of
        SNull \<Rightarrow> SNull
      | SInt i \<Rightarrow> SText (int_text i)
      | SReal r \<Rightarrow> SText (real_text env r)
      | SText s \<Rightarrow> SText s)"

text \<open>
  The four tables of \<^verbatim>\<open>_create_tables\<close>, each a list of rows in insertion order (the
  AUTOINCREMENT \<^verbatim>\<open>id\<close> is the position). A row of \<^verbatim>\<open>tweets\<close> holds the nineteen columns
  the INSERT statement names and the stored generated column \<^verbatim>\<open>created_date\<close>, which is
  \<^verbatim>\<open>DATE(created_at)\<close>; the TEXT columns hold their value after the affinity conversion, the
  other columns hold the value as bound (their conversion is part of \<open>sql_date\<close> and
  \<open>sql_num\<close>, which read them).
\<close>

record tweet_row =
  c_tweet_id :: sqlval
  c_created_at :: sqlval
  c_content :: sqlval
  c_user_id :: sqlval
  c_user_name :: sqlval
  c_user_display_name :: sqlval
  c_user_followers :: sqlval
  c_user_following :: sqlval
  c_retweet_count :: sqlval
  c_favorite_count :: sqlval
  c_reply_count :: sqlval
  c_is_retweet :: sqlval
  c_language :: sqlval
  c_source :: sqlval
  c_sentiment_score :: sqlval
  c_sentiment_category :: sqlval
  c_brand_mentioned :: sqlval
  c_collected_at :: sqlval
  c_processed_at :: sqlval
  c_created_date :: sqlval

record brand_row =
  b_name :: string
  b_category :: sqlval
  b_created_at :: string

record db =
  tweets :: "tweet_row list"
  hashtags :: "(sqlval \<times> string) list"
  mentions :: "(sqlval \<times> string) list"
  brands :: "brand_row list"

definition empty_db :: db where
  "empty_db = \<lparr> tweets = [], hashtags = [], mentions = [], brands = [] \<rparr>"

subsection \<open>The statements save\_tweets executes\<close>

text \<open>\<^verbatim>\<open>SELECT tweet_id FROM tweets WHERE tweet_id = ?\<close> followed by \<^verbatim>\<open>fetchone()\<close>: is there
  a row? A NULL parameter equals no row.\<close>

definition tweet_exists :: "env \<Rightarrow> pyval \<Rightarrow> db \<Rightarrow> error + bool" where
  "tweet_exists env tid d =
     (case bind tid of
        Inl e \<Rightarrow> Inl e
      | Inr v \<Rightarrow> Inr (text_affinity env v \<noteq> SNull
                      \<and> text_affinity env v \<in> c_tweet_id ` set (tweets d)))"

text \<open>The nineteen parameters of the INSERT (lines 208 to 228), in order.\<close>

definition tweet_params :: "env \<Rightarrow> pydict \<Rightarrow> pyval list" where
  "tweet_params env tweet =
     [get tweet ''tweet_id'',
      get tweet ''created_at'',
      py_or (get tweet ''text'') (get_default tweet ''content'' (PStr [])),
      get tweet ''user_id'',
      get tweet ''user_name'',
      get tweet ''user_display_name'',
      get_default tweet ''user_followers'' (PInt 0),
      get_default tweet ''user_following'' (PInt 0),
      get_default tweet ''retweet_count'' (PInt 0),
      get_default tweet ''favorite_count'' (PInt 0),
      get_default tweet ''reply_count'' (PInt 0),
      PInt (if truthy (get tweet ''is_retweet'') then 1 else 0),
      get_default tweet ''language'' (PStr ''en''),
      get_default tweet ''source'' (PStr []),
      get tweet ''sentiment_score'',
      get tweet ''sentiment_category'',
      get tweet ''brand_mentioned'',
      get_default tweet ''collected_at'' (PStr (now env)),
      PStr (now env)]"

definition row_of :: "env \<Rightarrow> sqlval list \<Rightarrow> tweet_row" where
  "row_of env vs =
     \<lparr> c_tweet_id = text_affinity env (vs ! 0),
       c_created_at = vs ! 1,
       c_content = text_affinity env (vs ! 2),
       c_user_id = text_affinity env (vs ! 3),
       c_user_name = text_affinity env (vs ! 4),
       c_user_display_name = text_affinity env (vs ! 5),
       c_user_followers = vs ! 6,
       c_user_following = vs ! 7,
       c_retweet_count = vs ! 8,
       c_favorite_count = vs ! 9,
       c_reply_count = vs ! 10,
       c_is_retweet = vs ! 11,
       c_language = text_affinity env (vs ! 12),
       c_source = text_affinity env (vs ! 13),
       c_sentiment_score = vs ! 14,
       c_sentiment_category = text_affinity env (vs ! 15),
       c_brand_mentioned = text_affinity env (vs ! 16),
       c_collected_at = vs ! 17,
       c_processed_at = vs ! 18,
       c_created_date = sql_date env (vs ! 1) \<rparr>"

text \<open>
  \<^verbatim>\<open>INSERT OR REPLACE INTO tweets\<close>. The generated column is computed first: \<^verbatim>\<open>DATE\<close> of the
  time value \<^verbatim>\<open>now\<close> (in any letter case) is not deterministic, which SQLite refuses in a
  generated column with an OperationalError. A NULL in one of the five NOT NULL columns
  (none has a default) raises IntegrityError. A row with the same \<^verbatim>\<open>tweet_id\<close> (UNIQUE) is
  deleted before the new row is inserted.
\<close>

definition nondeterministic_date :: "sqlval \<Rightarrow> bool" where
  "nondeterministic_date v = (case v of SText s \<Rightarrow> lower s = ''now'' | _ \<Rightarrow> False)"

definition not_null_ok :: "tweet_row \<Rightarrow> bool" where
  "not_null_ok r =
     (c_tweet_id r \<noteq> SNull \<and> c_created_at r \<noteq> SNull \<and> c_content r \<noteq> SNull
      \<and> c_user_id r \<noteq> SNull \<and> c_user_name r \<noteq> SNull)"

definition insert_or_replace_tweet :: "tweet_row \<Rightarrow> db \<Rightarrow> error + db" where
  "insert_or_replace_tweet r d =
     (if nondeterministic_date (c_created_at r) then Inl OperationalError
      else if \<not> not_null_ok r then Inl IntegrityError
      else Inr (d\<lparr> tweets := filter (\<lambda>x. c_tweet_id x \<noteq> c_tweet_id r) (tweets d) @ [r] \<rparr>))"

text \<open>\<^verbatim>\<open>INSERT OR IGNORE INTO hashtags\<close>: a row that breaks NOT NULL or
  \<^verbatim>\<open>UNIQUE(tweet_id, hashtag)\<close> is skipped.\<close>

definition insert_or_ignore_hashtag :: "sqlval \<Rightarrow> string \<Rightarrow> db \<Rightarrow> db" where
  "insert_or_ignore_hashtag tid tag d =
     (if tid = SNull \<or> (tid, tag) \<in> set (hashtags d) then d
      else d\<lparr> hashtags := hashtags d @ [(tid, tag)] \<rparr>)"

text \<open>\<^verbatim>\<open>INSERT INTO mentions\<close>: no uniqueness; NOT NULL on \<^verbatim>\<open>tweet_id\<close>.\<close>

definition insert_mention :: "sqlval \<Rightarrow> string \<Rightarrow> db \<Rightarrow> error + db" where
  "insert_mention tid user d =
     (if tid = SNull then Inl IntegrityError
      else Inr (d\<lparr> mentions := mentions d @ [(tid, user)] \<rparr>))"

text \<open>\<^verbatim>\<open>for x in v\<close>: a list yields its elements, a string its characters, anything else
  raises TypeError.\<close>

fun py_iter :: "pyval \<Rightarrow> error + pyval list" where
  "py_iter (PList xs) = Inr xs"
| "py_iter (PStr s) = Inr (map (\<lambda>c. PStr [c]) s)"
| "py_iter v = Inl TypeError"

text \<open>The two entity loops (lines 234 to 248). The guard
  \<^verbatim>\<open>if hashtag and isinstance(hashtag, str)\<close> lets exactly the non-empty strings through.\<close>

fun save_hashtags :: "sqlval \<Rightarrow> pyval list \<Rightarrow> db \<Rightarrow> db" where
  "save_hashtags tid [] d = d"
| "save_hashtags tid (hashtag # rest) d =
     (if truthy hashtag \<and> is_str hashtag
      then (case hashtag of
              PStr s \<Rightarrow> save_hashtags tid rest (insert_or_ignore_hashtag tid (strip (lower s)) d)
            | _ \<Rightarrow> save_hashtags tid rest d)
      else save_hashtags tid rest d)"

fun save_mentions :: "sqlval \<Rightarrow> pyval list \<Rightarrow> db \<Rightarrow> error + db" where
  "save_mentions tid [] d = Inr d"
| "save_mentions tid (mention # rest) d =
     (if truthy mention \<and> is_str mention
      then (case mention of
              PStr s \<Rightarrow> (case insert_mention tid (strip s) d of
                           Inl e \<Rightarrow> Inl e
                         | Inr d1 \<Rightarrow> save_mentions tid rest d1)
            | _ \<Rightarrow> save_mentions tid rest d)
      else save_mentions tid rest d)"

subsection \<open>save\_tweets\<close>

text \<open>One turn of the loop over \<^verbatim>\<open>tweets_data\<close> (lines 186 to 250). The boolean tells
  whether the tweet was inserted (\<^verbatim>\<open>saved_count += 1\<close>) or skipped (\<^verbatim>\<open>continue\<close>).\<close>

definition save_one :: "env \<Rightarrow> pydict \<Rightarrow> db \<Rightarrow> error + db \<times> bool" where
  "save_one env tweet d =
     (case tweet_exists env (get tweet ''tweet_id'') d of
        Inl e \<Rightarrow> Inl e
      | Inr found \<Rightarrow>
          if found then Inr (d, False)
          else (case bind_params (tweet_params env tweet) of
                  Inl e \<Rightarrow> Inl e
                | Inr vs \<Rightarrow>
                    (case insert_or_replace_tweet (row_of env vs) d of
                       Inl e \<Rightarrow> Inl e
                     | Inr d1 \<Rightarrow>
                         (let tweet_id = c_tweet_id (row_of env vs)
                          in case py_iter (get_default tweet ''hashtags'' (PList [])) of
                               Inl e \<Rightarrow> Inl e
                             | Inr hs \<Rightarrow>
                                 (let d2 = save_hashtags tweet_id hs d1
                                  in case py_iter (get_default tweet ''mentions'' (PList [])) of
                                       Inl e \<Rightarrow> Inl e
                                     | Inr ms \<Rightarrow>
                                         (case save_mentions tweet_id ms d2 of
                                            Inl e \<Rightarrow> Inl e
                                          | Inr d3 \<Rightarrow> Inr (d3, True)))))))"

text \<open>
  The condition of the store during a call. It is available; or the connection is closed
  (after \<^verbatim>\<open>close()\<close>), and then every operation on it, \<^verbatim>\<open>cursor()\<close>, \<^verbatim>\<open>execute()\<close> and
  \<^verbatim>\<open>rollback()\<close> alike, raises ProgrammingError; or it becomes unavailable at some turn of
  the loop, counted from 0 (the disk fails, the database is locked), and the first
  statement of that turn raises OperationalError, while \<^verbatim>\<open>rollback()\<close> still works. Faults
  at \<^verbatim>\<open>commit()\<close> or inside \<^verbatim>\<open>_update_brand_stats\<close> are not modelled.
\<close>

datatype storage = Available | Closed | FailsAt nat

fun raises_now :: "storage \<Rightarrow> error option" where
  "raises_now Available = None"
| "raises_now Closed = Some ProgrammingError"
| "raises_now (FailsAt 0) = Some OperationalError"
| "raises_now (FailsAt (Suc k)) = None"

fun next_turn :: "storage \<Rightarrow> storage" where
  "next_turn (FailsAt (Suc k)) = FailsAt k"
| "next_turn st = st"

definition cursor :: "storage \<Rightarrow> error + unit" where
  "cursor st = (if st = Closed then Inl ProgrammingError else Inr ())"

text \<open>\<^verbatim>\<open>rollback()\<close> gives back the state before the transaction.\<close>

definition rollback :: "storage \<Rightarrow> db \<Rightarrow> error + db" where
  "rollback st before = (if st = Closed then Inl ProgrammingError else Inr before)"

fun save_loop :: "env \<Rightarrow> storage \<Rightarrow> pydict list \<Rightarrow> db \<Rightarrow> nat \<Rightarrow> error + db \<times> nat" where
  "save_loop env st [] d saved_count = Inr (d, saved_count)"
| "save_loop env st (tweet # rest) d saved_count =
     (case raises_now st of
        Some e \<Rightarrow> Inl e
      | None \<Rightarrow>
          (case save_one env tweet d of
             Inl e \<Rightarrow> Inl e
           | Inr (d1, inserted) \<Rightarrow>
               save_loop env (next_turn st) rest d1
                 (if inserted then saved_count + 1 else saved_count)))"

text \<open>
  \<^verbatim>\<open>_update_brand_stats\<close>: the distinct values of \<^verbatim>\<open>brand_mentioned\<close> that are neither NULL
  nor empty, each inserted, stripped, into \<^verbatim>\<open>brands\<close> unless a row of that name exists.
  SQLite answers the \<^verbatim>\<open>SELECT DISTINCT\<close> from the index \<^verbatim>\<open>idx_tweets_brand\<close>, so the values
  come in ascending order (code point by code point, a prefix before its extensions).
\<close>

definition distinct_brands :: "db \<Rightarrow> string list" where
  "distinct_brands d =
     sort (remdups (concat (map (\<lambda>r. case c_brand_mentioned r of
                                         SText s \<Rightarrow> if s \<noteq> [] then [s] else []
                                       | _ \<Rightarrow> []) (tweets d))))"

definition insert_or_ignore_brand :: "env \<Rightarrow> string \<Rightarrow> db \<Rightarrow> db" where
  "insert_or_ignore_brand env name d =
     (if name \<in> b_name ` set (brands d) then d
      else d\<lparr> brands := brands d @ [\<lparr> b_name = name, b_category = SNull,
                                        b_created_at = sql_now env \<rparr>] \<rparr>)"

definition update_brand_stats :: "env \<Rightarrow> db \<Rightarrow> db" where
  "update_brand_stats env d =
     fold (\<lambda>brand d'. if brand \<noteq> [] then insert_or_ignore_brand env (strip brand) d' else d')
          (distinct_brands d) d"

text \<open>
  \<^verbatim>\<open>save_tweets\<close>. What the caller sees is \<open>Inr n\<close> for the return value \<open>n\<close> and \<open>Inl e\<close>
  for an exception \<open>e\<close> that leaves the method, together with the committed state of the
  database. The body of the \<^verbatim>\<open>try\<close> block is \<^verbatim>\<open>cursor()\<close> followed by the loop. When it
  raises, the \<^verbatim>\<open>except\<close> branch logs the error and calls \<^verbatim>\<open>rollback()\<close>, which is not
  guarded: if it raises too, that exception reaches the caller; otherwise the method
  returns 0 on the state before the call. Nothing is committed in either case.
\<close>

definition save_try :: "env \<Rightarrow> storage \<Rightarrow> pydict list \<Rightarrow> db \<Rightarrow> error + db \<times> nat" where
  "save_try env st tweets_data d =
     (case cursor st of
        Inl e \<Rightarrow> Inl e
      | Inr u \<Rightarrow> save_loop env st tweets_data d 0)"

definition save_tweets :: "env \<Rightarrow> storage \<Rightarrow> pydict list \<Rightarrow> db \<Rightarrow> (error + nat) \<times> db" where
  "save_tweets env st tweets_data d =
     (if tweets_data = [] then (Inr 0, d)
      else (case save_try env st tweets_data d of
              Inl e \<Rightarrow>
                (case rollback st d of
                   Inl e' \<Rightarrow> (Inl e', d)
                 | Inr before \<Rightarrow> (Inr 0, before))
            | Inr (d1, saved_count) \<Rightarrow> (Inr saved_count, update_brand_stats env d1)))"

text \<open>The states of the database that calls of \<^verbatim>\<open>save_tweets\<close> reach from the empty
  tables, whatever the condition of the store at each call.\<close>

inductive reachable :: "db \<Rightarrow> bool" where
  init: "reachable empty_db"
| save: "reachable d \<Longrightarrow> reachable (snd (save_tweets env st batch d))"

subsection \<open>get\_daily\_stats\<close>

text \<open>
  The first query of \<^verbatim>\<open>get_daily_stats\<close> (lines 395 to 410): COUNT, COUNT DISTINCT, and two
  AVG over the rows whose \<^verbatim>\<open>DATE(created_at)\<close> equals the date. COUNT DISTINCT and AVG skip
  NULL; AVG over no value is NULL, which the code turns into 0.0. The two top-K lists
  are ordered by the engine among ties and are not modelled.
\<close>

record daily_stats =
  total_tweets :: nat
  unique_users :: nat
  avg_retweets :: real
  avg_favorites :: real

definition rows_on :: "env \<Rightarrow> string \<Rightarrow> db \<Rightarrow> tweet_row list" where
  "rows_on env date d = filter (\<lambda>r. sql_date env (c_created_at r) = SText date) (tweets d)"

definition sql_avg :: "env \<Rightarrow> sqlval list \<Rightarrow> real option" where
  "sql_avg env vs =
     (let xs = filter (\<lambda>v. v \<noteq> SNull) vs
      in if xs = [] then None else Some (sum_list (map (sql_num env) xs) / real (length xs)))"

definition float_or_zero :: "real option \<Rightarrow> real" where
  "float_or_zero v = (case v of None \<Rightarrow> 0 | Some x \<Rightarrow> if x \<noteq> 0 then x else 0)"

definition get_daily_stats :: "env \<Rightarrow> string option \<Rightarrow> db \<Rightarrow> daily_stats" where
  "get_daily_stats env date d =
     (let date = (case date of None \<Rightarrow> today env | Some s \<Rightarrow> if s = [] then today env else s);
          rows = rows_on env date d
      in \<lparr> total_tweets = length rows,
           unique_users = length (remdups (filter (\<lambda>v. v \<noteq> SNull) (map c_user_id rows))),
           avg_retweets = float_or_zero (sql_avg env (map c_retweet_count rows)),
           avg_favorites = float_or_zero (sql_avg env (map c_favorite_count rows)) \<rparr>)"

subsection \<open>Concrete surroundings for evaluation\<close>

fun example_date :: "sqlval \<Rightarrow> sqlval" where
  "example_date (SText s) = SText (take 10 s)"
| "example_date v = SNull"

fun example_num :: "sqlval \<Rightarrow> real" where
  "example_num (SInt i) = real_of_int i"
| "example_num (SReal r) = r"
| "example_num v = 0"

fun example_real_text :: "real \<Rightarrow> string" where
  "example_real_text r = ''0.0''"

definition env0 :: env where
  "env0 = \<lparr> now = ''2024-01-15T10:30:00'', today = ''2024-01-15'',
            sql_now = ''2024-01-15 10:30:00'', real_text = example_real_text,
            sql_date = example_date, sql_num = example_num \<rparr>"

subsection \<open>Reference definitions for the properties of save\_tweets\<close>

text \<open>
  These definitions are not part of the code: they say, in the words of the
  specification, what \<^verbatim>\<open>save_tweets\<close> is expected to store, and the theorems compare the
  code with them.

  The identity under which a tweet is stored: its \<^verbatim>\<open>tweet_id\<close> as the TEXT column holds it
  (NULL when the value cannot be bound).
\<close>

definition tweet_key :: "env \<Rightarrow> pydict \<Rightarrow> sqlval" where
  "tweet_key env tweet =
     (case bind (get tweet ''tweet_id'') of Inl e \<Rightarrow> SNull | Inr v \<Rightarrow> text_affinity env v)"

text \<open>What a parameter is bound to (NULL when it cannot be bound).\<close>

definition bound :: "pyval \<Rightarrow> sqlval" where
  "bound p = (case bind p of Inl e \<Rightarrow> SNull | Inr v \<Rightarrow> v)"

text \<open>The elements of an entity list, and among them the non-empty strings.\<close>

definition elements :: "pyval \<Rightarrow> pyval list" where
  "elements v = (case py_iter v of Inl e \<Rightarrow> [] | Inr xs \<Rightarrow> xs)"

definition nonempty_strings :: "pyval list \<Rightarrow> string list" where
  "nonempty_strings vs = concat (map (\<lambda>v. case v of PStr s \<Rightarrow> if s \<noteq> [] then [s] else [] | _ \<Rightarrow> []) vs)"

text \<open>The rows a tweet contributes: each tag that is a non-empty string, lowercased and
  trimmed; each mention that is a non-empty string, trimmed.\<close>

definition tag_rows :: "env \<Rightarrow> pydict \<Rightarrow> (sqlval \<times> string) list" where
  "tag_rows env tweet =
     map (\<lambda>s. (tweet_key env tweet, strip (lower s)))
         (nonempty_strings (elements (get_default tweet ''hashtags'' (PList []))))"

definition mention_rows :: "env \<Rightarrow> pydict \<Rightarrow> (sqlval \<times> string) list" where
  "mention_rows env tweet =
     map (\<lambda>s. (tweet_key env tweet, strip s))
         (nonempty_strings (elements (get_default tweet ''mentions'' (PList []))))"

text \<open>
  The tweets of a batch that are inserted: in batch order, those whose identity is
  neither in the table already nor that of an earlier tweet of the batch.
\<close>

fun accepted :: "env \<Rightarrow> sqlval list \<Rightarrow> pydict list \<Rightarrow> pydict list" where
  "accepted env seen [] = []"
| "accepted env seen (t # ts) =
     (if tweet_key env t \<in> set seen then accepted env seen ts
      else t # accepted env (seen @ [tweet_key env t]) ts)"


subsection \<open>Concrete tweets\<close>

text \<open>A well-formed tweet; a tweet with an untrimmed brand, repeated and malformed tags and
  mentions; a tweet without \<^verbatim>\<open>user_id\<close>; a tweet whose \<^verbatim>\<open>created_at\<close> is the time value
  \<^verbatim>\<open>now\<close>.\<close>

definition tweet_a1 :: pydict where
  "tweet_a1 = [''tweet_id'' \<mapsto> PStr ''a1'', ''created_at'' \<mapsto> PStr ''2024-01-15T08:00:00'',
     ''content'' \<mapsto> PStr ''Loving my new Tesla!'', ''user_id'' \<mapsto> PStr ''u1'',
     ''user_name'' \<mapsto> PStr ''alice'', ''brand_mentioned'' \<mapsto> PStr ''Tesla'',
     ''hashtags'' \<mapsto> PList [PStr ''tesla'', PStr ''ev'']]"

definition tweet_messy :: pydict where
  "tweet_messy = [''tweet_id'' \<mapsto> PStr ''m1'', ''created_at'' \<mapsto> PStr ''2024-01-15T09:00:00'',
     ''text'' \<mapsto> PStr ''Charging'', ''user_id'' \<mapsto> PStr ''u2'',
     ''user_name'' \<mapsto> PStr ''bob'', ''brand_mentioned'' \<mapsto> PStr '' Tesla'',
     ''hashtags'' \<mapsto> PList [PStr '' EV '', PStr ''ev'', PInt 3, PStr [], PNone],
     ''mentions'' \<mapsto> PList [PStr '' alice '', PStr ''alice'', PNone, PStr []]]"

definition tweet_now :: pydict where
  "tweet_now = [''tweet_id'' \<mapsto> PStr ''n1'', ''created_at'' \<mapsto> PStr ''now'',
     ''content'' \<mapsto> PStr ''hello'', ''user_id'' \<mapsto> PStr ''u3'', ''user_name'' \<mapsto> PStr ''dan'']"

definition tweet_no_user :: pydict where
  "tweet_no_user = [''tweet_id'' \<mapsto> PStr ''b2'', ''created_at'' \<mapsto> PStr ''2024-01-15T08:30:00'',
     ''content'' \<mapsto> PStr ''hello'', ''user_name'' \<mapsto> PStr ''carol'']"


text \<open>A classifier of constant polarity, for evaluating the analyzer at concrete inputs.\<close>

fun stub_blob :: "real \<Rightarrow> textblob" where
  "stub_blob p s = Inr (p, 0)"

section \<open>Properties of the sentiment analyzer\<close>

lemma analyze_sentiment_Inr: "\<exists>r. analyze_sentiment blob th text = Inr r"
  by (cases "text") (auto simp: analyze_sentiment_def split: sum.splits)

lemma analyze_try_fields:
  "analyze_try blob th s = Inr r \<Longrightarrow>
     (\<exists>q. blob (strip s) = Inr (sentiment_score r, q)) \<and>
     confidence r = (if sentiment_category r = ''neutral'' then 1 - \<bar>sentiment_score r\<bar> else \<bar>sentiment_score r\<bar>)"
  by (auto simp: analyze_try_def Let_def split: sum.splits prod.splits)

text \<open>
  C4. Whatever the input, \<^verbatim>\<open>analyze_sentiment\<close> returns a result (no exception leaves it).
  The score is the polarity TextBlob reports, so it lies in [-1, 1] as long as the
  library keeps to its documented range, which is the hypothesis. For an empty string or
  a value that is not a string the category is neutral and the score 0, and so it is
  when the body of the \<^verbatim>\<open>try\<close> block raises.
\<close>

theorem analyze_sentiment_range:
  assumes "\<forall>s p q. blob s = Inr (p, q) \<longrightarrow> - 1 \<le> p \<and> p \<le> 1"
  shows "\<exists>r. analyze_sentiment blob th text = Inr r
           \<and> - 1 \<le> sentiment_score r \<and> sentiment_score r \<le> 1
           \<and> ((\<not> is_str text \<or> text = PStr []) \<longrightarrow>
                 sentiment_category r = ''neutral'' \<and> sentiment_score r = 0)
           \<and> ((\<exists>s e. text = PStr s \<and> analyze_try blob th s = Inl e) \<longrightarrow>
                 sentiment_category r = ''neutral'' \<and> sentiment_score r = 0)"
proof (cases "text")
  case (PStr s)
  show ?thesis
  proof (cases "s = []")
    case True
    with PStr show ?thesis
      by (simp add: analyze_sentiment_def invalid_input_result_def)
  next
    case False
    show ?thesis
    proof (cases "analyze_try blob th s")
      case (Inl e)
      with PStr False show ?thesis
        by (simp add: analyze_sentiment_def error_result_def)
    next
      case (Inr r)
      from analyze_try_fields[OF Inr] obtain q where "blob (strip s) = Inr (sentiment_score r, q)"
        by blast
      with assms have "- 1 \<le> sentiment_score r \<and> sentiment_score r \<le> 1" by blast
      with PStr False Inr show ?thesis
        by (simp add: analyze_sentiment_def)
    qed
  qed
qed (simp_all add: analyze_sentiment_def invalid_input_result_def)

text \<open>
  The analyzer at a non-empty text that the classifier scores 1/2.
\<close>

theorem analyze_sentiment_range_witness:
  "\<exists>r. analyze_sentiment (stub_blob (1 / 2)) default_thresholds (PStr ''I love it'') = Inr r
      \<and> sentiment_score r = 1 / 2 \<and> sentiment_category r = ''positive''
      \<and> - 1 \<le> sentiment_score r \<and> sentiment_score r \<le> 1"
proof -
  have h: "\<forall>s p q. stub_blob (1 / 2) s = Inr (p, q) \<longrightarrow> - 1 \<le> p \<and> p \<le> 1" by simp
  have "analyze_sentiment (stub_blob (1 / 2)) default_thresholds (PStr ''I love it'')
        = Inr \<lparr> sentiment_score = 1 / 2, sentiment_polarity = 1 / 2, sentiment_subjectivity = 0,
                sentiment_category = ''positive'', confidence = 1 / 2,
                cleaned_text = Some ''I love it'' \<rparr>"
    by (simp add: analyze_sentiment_def analyze_try_def categorize_def subscript_def
        default_thresholds_def strip_def py_space_def)
  with analyze_sentiment_range[OF h, of default_thresholds "PStr ''I love it''"] show ?thesis
    by simp
qed

text \<open>
  C5 (as the code has it). When the input is a non-empty string and the \<^verbatim>\<open>try\<close> block
  completes, the confidence is the absolute score for a positive or negative category
  and one minus the absolute score for a neutral one. On every other path (empty string,
  value that is not a string, exception inside the block) the result is neutral with
  score 0 and confidence 0.
\<close>

theorem confidence_by_path:
  "\<exists>r. analyze_sentiment blob th text = Inr r \<and>
     (if \<exists>s r'. text = PStr s \<and> s \<noteq> [] \<and> analyze_try blob th s = Inr r'
      then confidence r = (if sentiment_category r = ''neutral''
                           then 1 - \<bar>sentiment_score r\<bar> else \<bar>sentiment_score r\<bar>)
      else sentiment_category r = ''neutral'' \<and> sentiment_score r = 0 \<and> confidence r = 0)"
proof (cases "text")
  case (PStr s)
  show ?thesis
  proof (cases "s = []")
    case True
    with PStr show ?thesis by (simp add: analyze_sentiment_def invalid_input_result_def)
  next
    case False
    show ?thesis
    proof (cases "analyze_try blob th s")
      case (Inl e)
      with PStr False show ?thesis by (simp add: analyze_sentiment_def error_result_def)
    next
      case (Inr r)
      with PStr False analyze_try_fields[OF Inr] show ?thesis
        by (simp add: analyze_sentiment_def)
    qed
  qed
qed (simp_all add: analyze_sentiment_def invalid_input_result_def)

text \<open>A non-empty text that the classifier scores 0: neutral, with confidence 1.\<close>

theorem confidence_by_path_witness:
  "\<exists>r. analyze_sentiment (stub_blob 0) default_thresholds (PStr ''fine'') = Inr r
      \<and> sentiment_category r = ''neutral'' \<and> sentiment_score r = 0 \<and> confidence r = 1"
proof -
  have run: "analyze_try (stub_blob 0) default_thresholds ''fine''
        = Inr \<lparr> sentiment_score = 0, sentiment_polarity = 0, sentiment_subjectivity = 0,
                sentiment_category = ''neutral'', confidence = 1,
                cleaned_text = Some ''fine'' \<rparr>"
    by (simp add: analyze_try_def categorize_def subscript_def
        default_thresholds_def strip_def py_space_def)
  then have res: "analyze_sentiment (stub_blob 0) default_thresholds (PStr ''fine'')
        = Inr \<lparr> sentiment_score = 0, sentiment_polarity = 0, sentiment_subjectivity = 0,
                sentiment_category = ''neutral'', confidence = 1,
                cleaned_text = Some ''fine'' \<rparr>"
    by (simp add: analyze_sentiment_def)
  from confidence_by_path[of "stub_blob 0" default_thresholds "PStr ''fine''"] obtain r where
    r: "analyze_sentiment (stub_blob 0) default_thresholds (PStr ''fine'') = Inr r" and
    c: "if \<exists>s r'. PStr ''fine'' = PStr s \<and> s \<noteq> [] \<and> analyze_try (stub_blob 0) default_thresholds s = Inr r'
        then confidence r = (if sentiment_category r = ''neutral''
                             then 1 - \<bar>sentiment_score r\<bar> else \<bar>sentiment_score r\<bar>)
        else sentiment_category r = ''neutral'' \<and> sentiment_score r = 0 \<and> confidence r = 0"
    by blast
  from r res have fields: "sentiment_category r = ''neutral''" "sentiment_score r = 0" by auto
  have "\<exists>s r'. PStr ''fine'' = PStr s \<and> s \<noteq> [] \<and> analyze_try (stub_blob 0) default_thresholds s = Inr r'"
    using run by auto
  with c fields have "confidence r = 1" by simp
  with r fields show ?thesis by blast
qed

text \<open>
  The empty string is categorised neutral with score 0 and its confidence is 0, not 1.
\<close>

theorem confidence_empty_counterexample:
  "analyze_sentiment (stub_blob 0) default_thresholds (PStr []) = Inr invalid_input_result
   \<and> sentiment_category invalid_input_result = ''neutral''
   \<and> sentiment_score invalid_input_result = 0
   \<and> confidence invalid_input_result = 0
   \<and> confidence invalid_input_result \<noteq> 1 - \<bar>sentiment_score invalid_input_result\<bar>"
  by (simp add: analyze_sentiment_def invalid_input_result_def)


lemma analyze_loop_spec:
  "\<forall>a\<in>set as. a < length h \<Longrightarrow>
   \<exists>h'. analyze_loop blob th h as = Inr (h', [length h ..< length h + length as])
      \<and> length h' = length h + length as
      \<and> take (length h) h' = h
      \<and> (\<forall>i<length as. \<exists>s. analyze_sentiment blob th (tweet_text (h ! (as ! i))) = Inr s
             \<and> h' ! (length h + i) = (h ! (as ! i)) ++ sentiment_update s)"
proof (induction as arbitrary: h)
  case Nil
  then show ?case by simp
next
  case (Cons a as)
  obtain s where s: "analyze_sentiment blob th (tweet_text (h ! a)) = Inr s"
    using analyze_sentiment_Inr by blast
  define h2 where "h2 = h @ [(h ! a) ++ sentiment_update s]"
  have h2_old: "\<And>b. b < length h \<Longrightarrow> h2 ! b = h ! b"
    by (simp add: h2_def nth_append)
  have valid: "\<forall>b\<in>set as. b < length h2"
    using Cons.prems by (auto simp: h2_def)
  from Cons.IH[OF valid] obtain h3 where
    run: "analyze_loop blob th h2 as = Inr (h3, [length h2 ..< length h2 + length as])" and
    len: "length h3 = length h2 + length as" and
    pre: "take (length h2) h3 = h2" and
    each: "\<forall>i<length as. \<exists>s. analyze_sentiment blob th (tweet_text (h2 ! (as ! i))) = Inr s
             \<and> h3 ! (length h2 + i) = (h2 ! (as ! i)) ++ sentiment_update s"
    by blast
  have step: "analyze_loop blob th h (a # as) = Inr (h3, length h # [length h2 ..< length h2 + length as])"
    using s run by (simp add: Let_def h2_def)
  have idx: "length h # [length h2 ..< length h2 + length as] = [length h ..< length h + length (a # as)]"
    by (simp add: h2_def upt_rec)
  have pre': "take (length h) h3 = h"
  proof -
    have "take (length h) h3 = take (length h) (take (length h2) h3)"
      by (simp add: h2_def min_def)
    also have "\<dots> = h" by (subst pre) (simp add: h2_def)
    finally show ?thesis .
  qed
  have at0: "h3 ! length h = (h ! a) ++ sentiment_update s"
  proof -
    have "h3 ! length h = take (length h2) h3 ! length h"
      by (simp add: h2_def)
    also have "\<dots> = (h ! a) ++ sentiment_update s" by (subst pre) (simp add: h2_def)
    finally show ?thesis .
  qed
  have all: "\<forall>i<length (a # as). \<exists>s. analyze_sentiment blob th (tweet_text (h ! ((a # as) ! i))) = Inr s
             \<and> h3 ! (length h + i) = (h ! ((a # as) ! i)) ++ sentiment_update s"
  proof (intro allI impI)
    fix i assume i: "i < length (a # as)"
    show "\<exists>s. analyze_sentiment blob th (tweet_text (h ! ((a # as) ! i))) = Inr s
             \<and> h3 ! (length h + i) = (h ! ((a # as) ! i)) ++ sentiment_update s"
    proof (cases i)
      case 0
      with s at0 show ?thesis by simp
    next
      case (Suc j)
      with i have j: "j < length as" by simp
      then have "as ! j < length h" using Cons.prems by simp
      then have "h2 ! (as ! j) = h ! (as ! j)" by (rule h2_old)
      moreover have "length h2 + j = length h + i" by (simp add: h2_def Suc)
      ultimately show ?thesis using each j Suc by auto
    qed
  qed
  show ?case
    using step idx pre' all len by (simp add: h2_def)
qed

lemma dom_sentiment_update: "dom (sentiment_update s) = sentiment_keys"
  by (auto simp: sentiment_update_def sentiment_keys_def split: if_splits)

text \<open>
  C10 (as the code has it). \<^verbatim>\<open>analyze_tweets\<close> returns as many dictionaries as it was
  given, in the same order. Each is a newly allocated object that holds every pair of
  its input whose key is not one of the five sentiment keys, and the five sentiment keys
  with the values the analyzer computed for the tweet's text. Every object that existed
  before the call is unchanged.
\<close>

theorem analyze_tweets_copies:
  assumes "\<forall>a\<in>set refs. a < length h"
  shows "\<exists>h' out. analyze_tweets blob th h refs = Inr (h', out)
     \<and> length out = length refs
     \<and> take (length h) h' = h
     \<and> (\<forall>i<length refs. length h \<le> out ! i \<and> out ! i < length h'
          \<and> (\<forall>k v. (h ! (refs ! i)) k = Some v \<and> k \<notin> sentiment_keys
                 \<longrightarrow> (h' ! (out ! i)) k = Some v)
          \<and> (\<exists>s. analyze_sentiment blob th (tweet_text (h ! (refs ! i))) = Inr s
                 \<and> (\<forall>k\<in>sentiment_keys. (h' ! (out ! i)) k = sentiment_update s k
                                        \<and> sentiment_update s k \<noteq> None)))"
proof -
  from analyze_loop_spec[OF assms, of blob th] obtain h' where
    run: "analyze_loop blob th h refs = Inr (h', [length h ..< length h + length refs])" and
    len: "length h' = length h + length refs" and
    pre: "take (length h) h' = h" and
    each: "\<forall>i<length refs. \<exists>s. analyze_sentiment blob th (tweet_text (h ! (refs ! i))) = Inr s
             \<and> h' ! (length h + i) = (h ! (refs ! i)) ++ sentiment_update s"
    by blast
  have res: "analyze_tweets blob th h refs = Inr (h', [length h ..< length h + length refs])"
  proof (cases "refs = []")
    case True
    with pre len show ?thesis by (simp add: analyze_tweets_def)
  next
    case False
    with run show ?thesis by (simp add: analyze_tweets_def)
  qed
  have items: "\<forall>i<length refs. length h \<le> [length h ..< length h + length refs] ! i
          \<and> [length h ..< length h + length refs] ! i < length h'
          \<and> (\<forall>k v. (h ! (refs ! i)) k = Some v \<and> k \<notin> sentiment_keys
                 \<longrightarrow> (h' ! ([length h ..< length h + length refs] ! i)) k = Some v)
          \<and> (\<exists>s. analyze_sentiment blob th (tweet_text (h ! (refs ! i))) = Inr s
                 \<and> (\<forall>k\<in>sentiment_keys. (h' ! ([length h ..< length h + length refs] ! i)) k = sentiment_update s k
                                        \<and> sentiment_update s k \<noteq> None))"
  proof (intro allI impI)
    fix i assume i: "i < length refs"
    from each i obtain s where
      s: "analyze_sentiment blob th (tweet_text (h ! (refs ! i))) = Inr s" and
      cell: "h' ! (length h + i) = (h ! (refs ! i)) ++ sentiment_update s"
      by blast
    have idx: "[length h ..< length h + length refs] ! i = length h + i"
      using i by simp
    have kept: "\<forall>k v. (h ! (refs ! i)) k = Some v \<and> k \<notin> sentiment_keys
                 \<longrightarrow> (h' ! (length h + i)) k = Some v"
      using dom_sentiment_update[of s] by (auto simp: cell map_add_def split: option.splits)
    have added: "\<forall>k\<in>sentiment_keys. (h' ! (length h + i)) k = sentiment_update s k
                                        \<and> sentiment_update s k \<noteq> None"
      using dom_sentiment_update[of s] by (auto simp: cell map_add_def split: option.splits)
    show "length h \<le> [length h ..< length h + length refs] ! i
          \<and> [length h ..< length h + length refs] ! i < length h'
          \<and> (\<forall>k v. (h ! (refs ! i)) k = Some v \<and> k \<notin> sentiment_keys
                 \<longrightarrow> (h' ! ([length h ..< length h + length refs] ! i)) k = Some v)
          \<and> (\<exists>s. analyze_sentiment blob th (tweet_text (h ! (refs ! i))) = Inr s
                 \<and> (\<forall>k\<in>sentiment_keys. (h' ! ([length h ..< length h + length refs] ! i)) k = sentiment_update s k
                                        \<and> sentiment_update s k \<noteq> None))"
      unfolding idx using i len kept added s by simp
  qed
  show ?thesis
    using res pre items by simp
qed

text \<open>One tweet without sentiment keys.\<close>

theorem analyze_tweets_copies_witness:
  "\<exists>h' out. analyze_tweets (stub_blob (1 / 2)) default_thresholds
                  [[''tweet_id'' \<mapsto> PStr ''1'', ''text'' \<mapsto> PStr ''Great day'']] [0] = Inr (h', out)
         \<and> length out = 1
         \<and> take 1 h' = [[''tweet_id'' \<mapsto> PStr ''1'', ''text'' \<mapsto> PStr ''Great day'']]
         \<and> (h' ! (out ! 0)) ''tweet_id'' = Some (PStr ''1'')"
proof -
  have h: "\<forall>a\<in>set [0::nat]. a < length [[''tweet_id'' \<mapsto> PStr ''1'', ''text'' \<mapsto> PStr ''Great day'']]"
    by simp
  have k: "''tweet_id'' \<notin> sentiment_keys" by (simp add: sentiment_keys_def)
  from analyze_tweets_copies[OF h, of "stub_blob (1 / 2)" default_thresholds] k
  show ?thesis by fastforce
qed

text \<open>
  A tweet that already carries \<^verbatim>\<open>sentiment_score = 1.0\<close> and has an empty text: the output
  has \<^verbatim>\<open>sentiment_score = 0.0\<close>, so that pair of the input is not in the output.
\<close>

theorem analyze_tweets_overwrites_counterexample:
  "([[''text'' \<mapsto> PStr [], ''sentiment_score'' \<mapsto> PFloat 1]] ! 0) ''sentiment_score'' = Some (PFloat 1)
   \<and> (case analyze_tweets (stub_blob 0) default_thresholds
             [[''text'' \<mapsto> PStr [], ''sentiment_score'' \<mapsto> PFloat 1]] [0] of
         Inl e \<Rightarrow> False
       | Inr (h', out) \<Rightarrow> (h' ! (out ! 0)) ''sentiment_score'' = Some (PFloat 0))"
  by (simp add: analyze_tweets_def analyze_sentiment_def tweet_text_def py_or_def get_def
      get_default_def invalid_input_result_def sentiment_update_def Let_def)

section \<open>Properties of save\_tweets\<close>

subsection \<open>The statements and one turn of the loop\<close>

lemma bind_params_hd: "bind_params (p # ps) = Inr vs \<Longrightarrow> bind p = Inr (vs ! 0)"
  by (auto split: sum.splits)

lemma row_key:
  assumes "bind_params (tweet_params env t) = Inr vs"
  shows "c_tweet_id (row_of env vs) = tweet_key env t"
proof -
  obtain rest where "tweet_params env t = get t ''tweet_id'' # rest"
    by (simp add: tweet_params_def)
  with assms have "bind (get t ''tweet_id'') = Inr (vs ! 0)"
    using bind_params_hd by metis
  then show ?thesis by (simp add: tweet_key_def row_of_def)
qed

lemma save_hashtags_frame:
  "tweets (save_hashtags tid hs d) = tweets d \<and> mentions (save_hashtags tid hs d) = mentions d
   \<and> brands (save_hashtags tid hs d) = brands d"
  by (induction tid hs d rule: save_hashtags.induct)
     (auto simp: insert_or_ignore_hashtag_def split: pyval.splits)

lemma save_hashtags_distinct:
  "distinct (hashtags d) \<Longrightarrow> distinct (hashtags (save_hashtags tid hs d))"
  by (induction tid hs d rule: save_hashtags.induct)
     (auto simp: insert_or_ignore_hashtag_def split: pyval.splits)

lemma set_nonempty_strings: "set (nonempty_strings vs) = {s. PStr s \<in> set vs \<and> s \<noteq> []}"
  by (auto simp: nonempty_strings_def split: pyval.splits if_splits)

lemma save_hashtags_set:
  "tid \<noteq> SNull \<Longrightarrow>
   set (hashtags (save_hashtags tid hs d))
     = set (hashtags d) \<union> (\<lambda>s. (tid, strip (lower s))) ` set (nonempty_strings hs)"
proof (induction tid hs d rule: save_hashtags.induct)
  case (1 tid d)
  then show ?case by (simp add: nonempty_strings_def)
next
  case (2 tid hashtag rest d)
  then show ?case
    by (cases hashtag) (auto simp: insert_or_ignore_hashtag_def nonempty_strings_def)
qed

lemma save_mentions_append:
  "tid \<noteq> SNull \<Longrightarrow>
   save_mentions tid ms d
     = Inr (d\<lparr> mentions := mentions d @ map (\<lambda>s. (tid, strip s)) (nonempty_strings ms) \<rparr>)"
proof (induction tid ms d rule: save_mentions.induct)
  case (1 tid d)
  then show ?case by (simp add: nonempty_strings_def)
next
  case (2 tid mention rest d)
  then show ?case
    by (cases mention) (auto simp: insert_mention_def nonempty_strings_def)
qed


lemma filter_other_ids:
  "k \<notin> c_tweet_id ` set rows \<Longrightarrow> filter (\<lambda>x. c_tweet_id x \<noteq> k) rows = rows"
  by (induction rows) auto

lemma save_one_skip:
  assumes "bind (get t ''tweet_id'') = Inr v" and "text_affinity env v \<noteq> SNull"
    and "text_affinity env v \<in> c_tweet_id ` set (tweets d)"
  shows "save_one env t d = Inr (d, False)"
  using assms by (simp add: save_one_def tweet_exists_def)

lemma save_one_Inr:
  assumes ok: "save_one env t d = Inr (d', ins)"
  shows "(\<exists>v. bind (get t ''tweet_id'') = Inr v) \<and> tweet_key env t \<noteq> SNull \<and>
         (if tweet_key env t \<in> c_tweet_id ` set (tweets d) then \<not> ins \<and> d' = d
          else ins \<and> tweets d' = tweets d @ [(last (tweets d'))]
               \<and> c_tweet_id (last (tweets d')) = tweet_key env t
               \<and> brands d' = brands d
               \<and> mentions d' = mentions d @ mention_rows env t
               \<and> set (hashtags d') = set (hashtags d) \<union> set (tag_rows env t)
               \<and> (distinct (hashtags d) \<longrightarrow> distinct (hashtags d')))"
proof -
  from ok obtain v where v: "bind (get t ''tweet_id'') = Inr v"
    by (auto simp: save_one_def tweet_exists_def split: sum.splits)
  then have key: "tweet_key env t = text_affinity env v"
    by (simp add: tweet_key_def)
  show ?thesis
  proof (cases "tweet_key env t \<noteq> SNull \<and> tweet_key env t \<in> c_tweet_id ` set (tweets d)")
    case True
    with v key have "save_one env t d = Inr (d, False)"
      by (simp add: save_one_skip)
    with ok True v show ?thesis by auto
  next
    case False
    with v key have nf: "tweet_exists env (get t ''tweet_id'') d = Inr False"
      by (auto simp: tweet_exists_def)
    from ok nf obtain vs where vs: "bind_params (tweet_params env t) = Inr vs"
      by (auto simp: save_one_def split: sum.splits)
    let ?row = "row_of env vs"
    have rk: "c_tweet_id ?row = tweet_key env t" by (rule row_key[OF vs])
    from ok nf vs obtain d1 where d1: "insert_or_replace_tweet ?row d = Inr d1"
      by (auto simp: save_one_def split: sum.splits)
    then have nn: "not_null_ok ?row" and d1_eq: "d1 = d\<lparr> tweets := filter (\<lambda>x. c_tweet_id x \<noteq> c_tweet_id ?row) (tweets d) @ [?row] \<rparr>"
      by (auto simp: insert_or_replace_tweet_def split: if_splits)
    from nn rk have knn: "tweet_key env t \<noteq> SNull" by (simp add: not_null_ok_def)
    with False have fresh: "tweet_key env t \<notin> c_tweet_id ` set (tweets d)" by simp
    with d1_eq rk have d1_tweets: "tweets d1 = tweets d @ [?row]"
      by (simp add: filter_other_ids)
    from ok nf vs d1 obtain hs where hs: "py_iter (get_default t ''hashtags'' (PList [])) = Inr hs"
      by (auto simp: save_one_def Let_def split: sum.splits)
    let ?d2 = "save_hashtags (tweet_key env t) hs d1"
    from ok nf vs d1 hs obtain ms where ms: "py_iter (get_default t ''mentions'' (PList [])) = Inr ms"
      by (auto simp: save_one_def Let_def rk split: sum.splits)
    from ok nf vs d1 hs ms have fin: "save_mentions (tweet_key env t) ms ?d2 = Inr d'" and ins: "ins"
      by (auto simp: save_one_def Let_def rk split: sum.splits)
    from fin save_mentions_append[OF knn, of ms ?d2]
    have d': "d' = ?d2\<lparr> mentions := mentions ?d2 @ map (\<lambda>s. (tweet_key env t, strip s)) (nonempty_strings ms) \<rparr>"
      by simp
    have fr: "tweets ?d2 = tweets d1" "mentions ?d2 = mentions d1" "brands ?d2 = brands d1"
      using save_hashtags_frame[of "tweet_key env t" hs d1] by auto
    have d1_rest: "mentions d1 = mentions d" "brands d1 = brands d" "hashtags d1 = hashtags d"
      by (simp_all add: d1_eq)
    have tw: "tweets d' = tweets d @ [?row]" by (simp add: d' fr d1_tweets)
    have mn: "mentions d' = mentions d @ mention_rows env t"
      by (simp add: d' fr d1_rest mention_rows_def elements_def ms)
    have hsd: "hashtags d' = hashtags ?d2" by (simp add: d')
    have hset: "set (hashtags d') = set (hashtags d) \<union> set (tag_rows env t)"
      using save_hashtags_set[OF knn, of hs d1]
      by (simp add: hsd d1_rest tag_rows_def elements_def hs)
    have hdist: "distinct (hashtags d) \<longrightarrow> distinct (hashtags d')"
      using save_hashtags_distinct[of d1 "tweet_key env t" hs] by (simp add: hsd d1_rest)
    have br: "brands d' = brands d" by (simp add: d' fr d1_rest)
    from v knn fresh ins tw rk mn hset hdist br show ?thesis by auto
  qed
qed


subsection \<open>The loop\<close>

lemma save_loop_Inr:
  "save_loop env Available B d c = Inr (d', c') \<Longrightarrow>
     (\<forall>t\<in>set B. (\<exists>v. bind (get t ''tweet_id'') = Inr v) \<and> tweet_key env t \<noteq> SNull
                 \<and> tweet_key env t \<in> c_tweet_id ` set (tweets d'))
   \<and> (\<exists>new. tweets d' = tweets d @ new
          \<and> map c_tweet_id new = map (tweet_key env) (accepted env (map c_tweet_id (tweets d)) B)
          \<and> c' = c + length new)
   \<and> brands d' = brands d
   \<and> mentions d' = mentions d @ concat (map (mention_rows env) (accepted env (map c_tweet_id (tweets d)) B))
   \<and> set (hashtags d') = set (hashtags d) \<union> (\<Union>t\<in>set (accepted env (map c_tweet_id (tweets d)) B). set (tag_rows env t))
   \<and> (distinct (hashtags d) \<longrightarrow> distinct (hashtags d'))"
proof (induction B arbitrary: d c)
  case Nil
  then show ?case by simp
next
  case (Cons t rest)
  from Cons.prems obtain d1 ins where
    one: "save_one env t d = Inr (d1, ins)" and
    more: "save_loop env Available rest d1 (if ins then c + 1 else c) = Inr (d', c')"
    by (auto split: sum.splits)
  note S = save_one_Inr[OF one]
  note IH = Cons.IH[OF more]
  from IH obtain new where new: "tweets d' = tweets d1 @ new"
      "map c_tweet_id new = map (tweet_key env) (accepted env (map c_tweet_id (tweets d1)) rest)"
      "c' = (if ins then c + 1 else c) + length new"
    by blast
  show ?case
  proof (cases "tweet_key env t \<in> c_tweet_id ` set (tweets d)")
    case True
    with S have same: "d1 = d" "\<not> ins" by auto
    from True have acc: "accepted env (map c_tweet_id (tweets d)) (t # rest)
                        = accepted env (map c_tweet_id (tweets d)) rest"
      by simp
    have here: "tweet_key env t \<in> c_tweet_id ` set (tweets d')"
      using True new(1) same by auto
    show ?thesis
      unfolding acc using IH S here same by auto
  next
    case False
    with S have ins: "ins" and tw: "tweets d1 = tweets d @ [last (tweets d1)]"
      and lk: "c_tweet_id (last (tweets d1)) = tweet_key env t"
      and br: "brands d1 = brands d"
      and mn: "mentions d1 = mentions d @ mention_rows env t"
      and hs: "set (hashtags d1) = set (hashtags d) \<union> set (tag_rows env t)"
      and dist: "distinct (hashtags d) \<longrightarrow> distinct (hashtags d1)"
      by auto
    have ids1: "map c_tweet_id (tweets d1) = map c_tweet_id (tweets d) @ [tweet_key env t]"
      by (subst tw) (simp add: lk)
    from False have acc: "accepted env (map c_tweet_id (tweets d)) (t # rest)
                        = t # accepted env (map c_tweet_id (tweets d1)) rest"
      by (simp add: ids1)
    have here: "tweet_key env t \<in> c_tweet_id ` set (tweets d')"
    proof -
      have "tweet_key env t \<in> set (map c_tweet_id (tweets d1))" by (simp add: ids1)
      then show ?thesis using new(1) by auto
    qed
    have news: "tweets d' = tweets d @ (last (tweets d1) # new)"
      by (subst new(1), subst tw) simp
    have cnt: "c' = c + length (last (tweets d1) # new)"
      using new(3) ins by simp
    have ids: "map c_tweet_id (last (tweets d1) # new)
               = map (tweet_key env) (accepted env (map c_tweet_id (tweets d)) (t # rest))"
      unfolding acc by (simp add: lk new(2))
    have ex: "\<exists>new'. tweets d' = tweets d @ new'
          \<and> map c_tweet_id new' = map (tweet_key env) (accepted env (map c_tweet_id (tweets d)) (t # rest))
          \<and> c' = c + length new'"
      using news cnt ids by blast
    have all: "\<forall>u\<in>set (t # rest). (\<exists>v. bind (get u ''tweet_id'') = Inr v) \<and> tweet_key env u \<noteq> SNull
                 \<and> tweet_key env u \<in> c_tweet_id ` set (tweets d')"
      using IH S here by auto
    have br': "brands d' = brands d" using IH br by simp
    have mn': "mentions d' = mentions d @ concat (map (mention_rows env) (accepted env (map c_tweet_id (tweets d)) (t # rest)))"
      unfolding acc using IH mn by simp
    have hs': "set (hashtags d') = set (hashtags d) \<union> (\<Union>u\<in>set (accepted env (map c_tweet_id (tweets d)) (t # rest)). set (tag_rows env u))"
      unfolding acc using IH hs by auto
    have dist': "distinct (hashtags d) \<longrightarrow> distinct (hashtags d')"
      using IH dist by simp
    from all ex br' mn' hs' dist' show ?thesis by blast
  qed
qed

lemma save_loop_all_present:
  "\<forall>t\<in>set B. (\<exists>v. bind (get t ''tweet_id'') = Inr v \<and> text_affinity env v \<noteq> SNull
                  \<and> text_affinity env v \<in> c_tweet_id ` set (tweets d)) \<Longrightarrow>
   save_loop env Available B d c = Inr (d, c)"
proof (induction B arbitrary: c)
  case Nil
  then show ?case by simp
next
  case (Cons t rest)
  then obtain v where "bind (get t ''tweet_id'') = Inr v" "text_affinity env v \<noteq> SNull"
      "text_affinity env v \<in> c_tweet_id ` set (tweets d)"
    by auto
  then have "save_one env t d = Inr (d, False)" by (rule save_one_skip)
  with Cons show ?case by simp
qed


subsection \<open>Independence of the clock, and the brand registry\<close>

lemma text_affinity_null: "text_affinity env v = SNull \<longleftrightarrow> v = SNull"
  by (cases v) (simp_all add: text_affinity_def)

lemma text_affinity_cong:
  "real_text env1 = real_text env2 \<Longrightarrow> text_affinity env1 v = text_affinity env2 v"
  by (cases v) (simp_all add: text_affinity_def)

lemma tweet_key_cong:
  "real_text env1 = real_text env2 \<Longrightarrow> tweet_key env1 t = tweet_key env2 t"
  by (simp add: tweet_key_def text_affinity_cong[of env1 env2] split: sum.splits)

lemma bind_params_Inr_iff:
  "(\<exists>vs. bind_params ps = Inr vs) \<longleftrightarrow> (\<forall>p\<in>set ps. \<exists>v. bind p = Inr v)"
  by (induction ps) (auto split: sum.splits)

lemma bind_params_map: "bind_params ps = Inr vs \<Longrightarrow> vs = map bound ps"
  by (induction ps arbitrary: vs) (auto simp: bound_def split: sum.splits)

lemma bind_default_str:
  "(\<exists>v. bind (get_default t k (PStr a)) = Inr v) \<longleftrightarrow> (\<exists>v. bind (get_default t k (PStr b)) = Inr v)"
  by (simp add: get_default_def split: option.splits)

lemma params_bindable_env:
  "(\<forall>p\<in>set (tweet_params env1 t). \<exists>v. bind p = Inr v)
   \<longleftrightarrow> (\<forall>p\<in>set (tweet_params env2 t). \<exists>v. bind p = Inr v)"
  using bind_default_str[of t "''collected_at''" "now env1" "now env2"]
  by (simp add: tweet_params_def)

lemma not_null_params:
  "not_null_ok (row_of env (map bound (tweet_params env t)))
   \<longleftrightarrow> bound (get t ''tweet_id'') \<noteq> SNull \<and> bound (get t ''created_at'') \<noteq> SNull
      \<and> bound (py_or (get t ''text'') (get_default t ''content'' (PStr []))) \<noteq> SNull
      \<and> bound (get t ''user_id'') \<noteq> SNull \<and> bound (get t ''user_name'') \<noteq> SNull"
  by (simp add: not_null_ok_def row_of_def tweet_params_def text_affinity_null)

lemma created_at_params:
  "c_created_at (row_of env (map bound (tweet_params env t))) = bound (get t ''created_at'')"
  by (simp add: row_of_def tweet_params_def)

lemma save_one_success_transfer:
  assumes ok: "save_one env2 t d2 = Inr r2"
    and rt: "real_text env1 = real_text env2"
    and ids: "c_tweet_id ` set (tweets d1) = c_tweet_id ` set (tweets d2)"
  shows "\<exists>r1. save_one env1 t d1 = Inr r1"
proof -
  obtain d2' i2 where r2: "r2 = (d2', i2)" by (cases r2)
  note S = save_one_Inr[OF ok[unfolded r2]]
  from S obtain v where v: "bind (get t ''tweet_id'') = Inr v" by blast
  have key: "tweet_key env1 t = tweet_key env2 t" by (rule tweet_key_cong[OF rt])
  have k1: "tweet_key env1 t = text_affinity env1 v" by (simp add: tweet_key_def v)
  from S have knn: "tweet_key env1 t \<noteq> SNull" by (simp add: key)
  show ?thesis
  proof (cases "tweet_key env1 t \<in> c_tweet_id ` set (tweets d1)")
    case True
    with v knn k1 have "save_one env1 t d1 = Inr (d1, False)"
      by (simp add: save_one_skip)
    then show ?thesis by blast
  next
    case False
    then have nf1: "tweet_exists env1 (get t ''tweet_id'') d1 = Inr False"
      by (simp add: tweet_exists_def v k1[symmetric])
    from False have "tweet_key env2 t \<notin> c_tweet_id ` set (tweets d2)"
      by (simp add: key ids)
    then have nf2: "tweet_exists env2 (get t ''tweet_id'') d2 = Inr False"
      by (simp add: tweet_exists_def v tweet_key_def)
    from ok nf2 obtain vs2 where vs2: "bind_params (tweet_params env2 t) = Inr vs2"
      by (auto simp: save_one_def split: sum.splits)
    from ok nf2 vs2 have nn2: "not_null_ok (row_of env2 vs2)"
      by (auto simp: save_one_def insert_or_replace_tweet_def split: sum.splits if_splits)
    from ok nf2 vs2 have det2: "\<not> nondeterministic_date (c_created_at (row_of env2 vs2))"
      by (auto simp: save_one_def insert_or_replace_tweet_def split: sum.splits if_splits)
    from ok nf2 vs2 nn2 det2 obtain hs where hs: "py_iter (get_default t ''hashtags'' (PList [])) = Inr hs"
      by (auto simp: save_one_def insert_or_replace_tweet_def Let_def split: sum.splits)
    from ok nf2 vs2 nn2 det2 hs obtain ms where ms: "py_iter (get_default t ''mentions'' (PList [])) = Inr ms"
      by (auto simp: save_one_def insert_or_replace_tweet_def Let_def split: sum.splits)
    from vs2 have "\<forall>p\<in>set (tweet_params env2 t). \<exists>v. bind p = Inr v"
      using bind_params_Inr_iff by blast
    then have "\<forall>p\<in>set (tweet_params env1 t). \<exists>v. bind p = Inr v"
      using params_bindable_env by blast
    then obtain vs1 where vs1: "bind_params (tweet_params env1 t) = Inr vs1"
      using bind_params_Inr_iff by blast
    have "vs1 = map bound (tweet_params env1 t)" "vs2 = map bound (tweet_params env2 t)"
      using vs1 vs2 bind_params_map by blast+
    with nn2 det2 have nn1: "not_null_ok (row_of env1 vs1)"
      and det1: "\<not> nondeterministic_date (c_created_at (row_of env1 vs1))"
      by (simp_all add: not_null_params created_at_params)
    have rk: "c_tweet_id (row_of env1 vs1) = tweet_key env1 t" by (rule row_key[OF vs1])
    show ?thesis
      using nf1 vs1 nn1 det1 hs ms save_mentions_append[OF knn]
      by (auto simp: save_one_def insert_or_replace_tweet_def Let_def rk)
  qed
qed

lemma save_one_ids:
  assumes "save_one env t d = Inr (d', ins)"
  shows "c_tweet_id ` set (tweets d') = insert (tweet_key env t) (c_tweet_id ` set (tweets d))"
proof (cases "tweet_key env t \<in> c_tweet_id ` set (tweets d)")
  case True
  with save_one_Inr[OF assms] show ?thesis by auto
next
  case False
  with save_one_Inr[OF assms] have tw: "tweets d' = tweets d @ [last (tweets d')]"
    and lk: "c_tweet_id (last (tweets d')) = tweet_key env t"
    by auto
  have "set (tweets d') = insert (last (tweets d')) (set (tweets d))"
    by (subst tw) simp
  then show ?thesis by (simp add: lk)
qed

lemma save_loop_failure_transfer:
  "save_loop env1 Available B d1 c1 = Inl e \<Longrightarrow> real_text env1 = real_text env2 \<Longrightarrow>
   c_tweet_id ` set (tweets d1) = c_tweet_id ` set (tweets d2) \<Longrightarrow>
   \<exists>e'. save_loop env2 Available B d2 c2 = Inl e'"
proof (induction B arbitrary: d1 d2 c1 c2 e)
  case Nil
  then show ?case by simp
next
  case (Cons t rest)
  show ?case
  proof (cases "save_one env2 t d2")
    case (Inl e2)
    then show ?thesis by simp
  next
    case (Inr r2)
    obtain d2' i2 where r2: "r2 = (d2', i2)" by (cases r2)
    from save_one_success_transfer[OF Inr Cons.prems(2) Cons.prems(3)]
    obtain r1 where one1: "save_one env1 t d1 = Inr r1" by blast
    obtain d1' i1 where r1: "r1 = (d1', i1)" by (cases r1)
    from Cons.prems(1) one1 r1
    have rest1: "save_loop env1 Available rest d1' (if i1 then c1 + 1 else c1) = Inl e"
      by simp
    have ids': "c_tweet_id ` set (tweets d1') = c_tweet_id ` set (tweets d2')"
      using save_one_ids[OF one1[unfolded r1]] save_one_ids[OF Inr[unfolded r2]]
        tweet_key_cong[OF Cons.prems(2), of t] Cons.prems(3)
      by simp
    from Cons.IH[OF rest1 Cons.prems(2) ids', of "if i2 then c2 + 1 else c2"]
    show ?thesis using Inr r2 by simp
  qed
qed

lemma fold_brands_frame:
  "tweets (fold (\<lambda>brand d'. if brand \<noteq> [] then insert_or_ignore_brand env (strip brand) d' else d') bs d) = tweets d
   \<and> hashtags (fold (\<lambda>brand d'. if brand \<noteq> [] then insert_or_ignore_brand env (strip brand) d' else d') bs d) = hashtags d
   \<and> mentions (fold (\<lambda>brand d'. if brand \<noteq> [] then insert_or_ignore_brand env (strip brand) d' else d') bs d) = mentions d
   \<and> b_name ` set (brands (fold (\<lambda>brand d'. if brand \<noteq> [] then insert_or_ignore_brand env (strip brand) d' else d') bs d))
       = b_name ` set (brands d) \<union> strip ` {b \<in> set bs. b \<noteq> []}"
  by (induction bs arbitrary: d) (auto simp: insert_or_ignore_brand_def)

lemma update_brand_stats_frame:
  "tweets (update_brand_stats env d) = tweets d"
  "hashtags (update_brand_stats env d) = hashtags d"
  "mentions (update_brand_stats env d) = mentions d"
  using fold_brands_frame[of env "distinct_brands d" d] by (simp_all add: update_brand_stats_def)

lemma set_distinct_brands:
  "set (distinct_brands d) = {s. s \<noteq> [] \<and> SText s \<in> c_brand_mentioned ` set (tweets d)}"
  by (auto simp: distinct_brands_def split: sqlval.splits if_splits)

lemma update_brand_stats_names:
  "b_name ` set (brands (update_brand_stats env d))
     = b_name ` set (brands d) \<union> strip ` {s. s \<noteq> [] \<and> SText s \<in> c_brand_mentioned ` set (tweets d)}"
  using fold_brands_frame[of env "distinct_brands d" d]
  by (auto simp: update_brand_stats_def set_distinct_brands)


subsection \<open>The condition of the store\<close>

lemma save_tweets_Available:
  "save_tweets env Available B d =
     (if B = [] then (Inr 0, d)
      else (case save_loop env Available B d 0 of
              Inl e \<Rightarrow> (Inr 0, d)
            | Inr (d1, n) \<Rightarrow> (Inr n, update_brand_stats env d1)))"
  by (auto simp: save_tweets_def save_try_def cursor_def rollback_def split: sum.splits)

lemma loop_completes_fault_free:
  "save_loop env st B d c = Inr r \<Longrightarrow> save_loop env Available B d c = Inr r"
proof (induction B arbitrary: st d c)
  case Nil
  then show ?case by simp
next
  case (Cons t rest)
  from Cons.prems have quiet: "raises_now st = None"
    by (cases "raises_now st") simp_all
  with Cons.prems obtain d1 ins where
    one: "save_one env t d = Inr (d1, ins)" and
    more: "save_loop env (next_turn st) rest d1 (if ins then c + 1 else c) = Inr r"
    by (auto split: sum.splits)
  from Cons.IH[OF more] one show ?case by simp
qed

lemma fault_hits:
  "k < length B \<Longrightarrow> \<exists>e. save_loop env (FailsAt k) B d c = Inl e"
proof (induction B arbitrary: k d c)
  case Nil
  then show ?case by simp
next
  case (Cons t rest)
  show ?case
  proof (cases k)
    case 0
    then show ?thesis by simp
  next
    case (Suc j)
    with Cons.prems have j: "j < length rest" by simp
    show ?thesis
    proof (cases "save_one env t d")
      case (Inl e)
      with Suc show ?thesis by simp
    next
      case (Inr r)
      obtain d1 ins where r: "r = (d1, ins)" by (cases r)
      from Cons.IH[OF j, of d1 "if ins then c + 1 else c"] Inr r Suc show ?thesis by simp
    qed
  qed
qed

lemma closed_loop_raises:
  "B \<noteq> [] \<Longrightarrow> save_loop env Closed B d c = Inl ProgrammingError"
  by (cases B) simp_all

lemma save_tweets_closed:
  "B \<noteq> [] \<Longrightarrow> save_tweets env Closed B d = (Inl ProgrammingError, d)"
  by (simp add: save_tweets_def save_try_def cursor_def rollback_def)

text \<open>On a closed connection the exception of \<^verbatim>\<open>rollback()\<close> reaches the caller; a
  \<^verbatim>\<open>created_at\<close> of \<^verbatim>\<open>now\<close> is refused by the generated column, and the call returns 0.\<close>

lemma save_tweets_closed_example:
  "save_tweets env0 Closed [tweet_a1] empty_db = (Inl ProgrammingError, empty_db)"
  by (simp add: save_tweets_closed)

lemma save_tweets_now_example:
  "save_loop env0 Available [tweet_now] empty_db 0 = Inl OperationalError
   \<and> save_tweets env0 Available [tweet_now] empty_db = (Inr 0, empty_db)"
  by code_simp

lemma save_tweets_rolled_back:
  "st \<noteq> Closed \<Longrightarrow> save_loop env st B d 0 = Inl e \<Longrightarrow> save_tweets env st B d = (Inr 0, d)"
  by (cases "B = []") (simp_all add: save_tweets_def save_try_def cursor_def rollback_def)

lemma save_tweets_success:
  assumes "save_loop env st B d 0 = Inr (d1, n)"
  shows "save_tweets env st B d = (Inr n, if B = [] then d else update_brand_stats env d1)"
proof (cases "B = []")
  case True
  with assms show ?thesis by (simp add: save_tweets_def)
next
  case False
  with assms closed_loop_raises[OF False, of env d 0] have "st \<noteq> Closed" by auto
  with assms False show ?thesis
    by (simp add: save_tweets_def save_try_def cursor_def)
qed

subsection \<open>The claims about save\_tweets\<close>

text \<open>
  C1. Saving a batch and then saving the same batch again, the store being available at
  both calls: the second call returns 0 and leaves the \<^verbatim>\<open>tweets\<close> table as the first call
  left it, so the number of stored tweets is the same. The two calls may run at different
  times; the engine's rendering of reals as text is the same in both, which is the
  hypothesis. When the data makes the first call fail and it is rolled back, the second
  fails in the same way and also returns 0.
\<close>

theorem save_tweets_twice:
  assumes rt: "real_text env2 = real_text env1"
  shows "fst (save_tweets env2 Available B (snd (save_tweets env1 Available B d))) = Inr 0
       \<and> tweets (snd (save_tweets env2 Available B (snd (save_tweets env1 Available B d)))) = tweets (snd (save_tweets env1 Available B d))
       \<and> length (tweets (snd (save_tweets env2 Available B (snd (save_tweets env1 Available B d)))))
           = length (tweets (snd (save_tweets env1 Available B d)))"
proof (cases "B = []")
  case True
  then show ?thesis by (simp add: save_tweets_Available)
next
  case ne: False
  show ?thesis
  proof (cases "save_loop env1 Available B d 0")
    case (Inl e)
    then have first: "save_tweets env1 Available B d = (Inr 0, d)"
      using ne by (simp add: save_tweets_Available)
    from save_loop_failure_transfer[OF Inl rt[symmetric] refl, of 0]
    obtain e' where "save_loop env2 Available B d 0 = Inl e'" by blast
    then have "save_tweets env2 Available B d = (Inr 0, d)"
      using ne by (simp add: save_tweets_Available)
    with first show ?thesis by simp
  next
    case (Inr r)
    obtain d1 n where r: "r = (d1, n)" by (cases r)
    let ?S1 = "update_brand_stats env1 d1"
    from Inr r ne have first: "save_tweets env1 Available B d = (Inr n, ?S1)"
      by (simp add: save_tweets_Available)
    have tw: "tweets ?S1 = tweets d1" by (rule update_brand_stats_frame)
    have present: "\<forall>t\<in>set B. (\<exists>v. bind (get t ''tweet_id'') = Inr v \<and> text_affinity env2 v \<noteq> SNull
                  \<and> text_affinity env2 v \<in> c_tweet_id ` set (tweets ?S1))"
    proof
      fix t assume t: "t \<in> set B"
      with save_loop_Inr[OF Inr[unfolded r]] obtain v where
        v: "bind (get t ''tweet_id'') = Inr v" and
        k: "tweet_key env1 t \<noteq> SNull" "tweet_key env1 t \<in> c_tweet_id ` set (tweets d1)"
        by blast
      have "tweet_key env1 t = text_affinity env2 v"
        using tweet_key_cong[OF rt, of t] v by (simp add: tweet_key_def)
      with v k tw show "\<exists>v. bind (get t ''tweet_id'') = Inr v \<and> text_affinity env2 v \<noteq> SNull
                  \<and> text_affinity env2 v \<in> c_tweet_id ` set (tweets ?S1)"
        by auto
    qed
    from save_loop_all_present[OF present, of 0]
    have "save_tweets env2 Available B ?S1 = (Inr 0, update_brand_stats env2 ?S1)"
      using ne by (simp add: save_tweets_Available)
    with first show ?thesis by (simp add: update_brand_stats_frame)
  qed
qed

text \<open>The batch of the well-formed and the messy tweet, saved twice at two different times
  into the empty tables.\<close>

theorem save_tweets_twice_witness:
  "real_text (env0\<lparr>now := ''2024-01-16T07:00:00''\<rparr>) = real_text env0
   \<and> fst (save_tweets env0 Available [tweet_a1, tweet_messy] empty_db) = Inr 2
   \<and> fst (save_tweets (env0\<lparr>now := ''2024-01-16T07:00:00''\<rparr>) Available [tweet_a1, tweet_messy]
            (snd (save_tweets env0 Available [tweet_a1, tweet_messy] empty_db))) = Inr 0
   \<and> length (tweets (snd (save_tweets (env0\<lparr>now := ''2024-01-16T07:00:00''\<rparr>) Available [tweet_a1, tweet_messy]
            (snd (save_tweets env0 Available [tweet_a1, tweet_messy] empty_db))))) = 2"
proof -
  have rt: "real_text (env0\<lparr>now := ''2024-01-16T07:00:00''\<rparr>) = real_text env0" by simp
  have first: "fst (save_tweets env0 Available [tweet_a1, tweet_messy] empty_db) = Inr 2" by code_simp
  have len: "length (tweets (snd (save_tweets env0 Available [tweet_a1, tweet_messy] empty_db))) = 2"
    by code_simp
  from save_tweets_twice[OF rt, of "[tweet_a1, tweet_messy]" empty_db] rt first len
  show ?thesis by simp
qed

text \<open>
  C2 (as the code has it). As long as the connection is not closed, a failure in the
  loop leaves the database as it was before the call, whatever the loop had inserted
  until then, and the call returns 0: the error is logged and absorbed, it is not raised
  to the caller. This holds for an error the data causes and for a store that becomes
  unavailable at any turn of the loop.
\<close>

theorem save_tweets_failure:
  assumes "st \<noteq> Closed"
  shows "(\<forall>e. save_loop env st B d 0 = Inl e \<longrightarrow> save_tweets env st B d = (Inr 0, d))
       \<and> (\<forall>k. st = FailsAt k \<and> k < length B \<longrightarrow> save_tweets env st B d = (Inr 0, d))"
proof (intro conjI allI impI)
  fix e assume "save_loop env st B d 0 = Inl e"
  with assms show "save_tweets env st B d = (Inr 0, d)" by (rule save_tweets_rolled_back)
next
  fix k assume k: "st = FailsAt k \<and> k < length B"
  with fault_hits[of k B env d 0] obtain e where "save_loop env st B d 0 = Inl e" by blast
  with assms show "save_tweets env st B d = (Inr 0, d)" by (rule save_tweets_rolled_back)
qed

text \<open>The store fails at the second turn, after the loop has inserted the first tweet: the
  call returns 0 and leaves the tables empty. So does a batch whose second tweet has no
  \<^verbatim>\<open>user_id\<close>.\<close>

theorem save_tweets_failure_witness:
  "save_loop env0 (FailsAt 1) [tweet_a1, tweet_messy] empty_db 0 = Inl OperationalError
   \<and> save_tweets env0 (FailsAt 1) [tweet_a1, tweet_messy] empty_db = (Inr 0, empty_db)
   \<and> save_loop env0 Available [tweet_a1, tweet_no_user] empty_db 0 = Inl IntegrityError
   \<and> save_tweets env0 Available [tweet_a1, tweet_no_user] empty_db = (Inr 0, empty_db)"
proof -
  have open1: "FailsAt 1 \<noteq> Closed" and open2: "Available \<noteq> Closed" by simp_all
  have f1: "save_loop env0 (FailsAt 1) [tweet_a1, tweet_messy] empty_db 0 = Inl OperationalError"
    by code_simp
  have f2: "save_loop env0 Available [tweet_a1, tweet_no_user] empty_db 0 = Inl IntegrityError"
    by code_simp
  from save_tweets_failure[OF open1, of env0 "[tweet_a1, tweet_messy]" empty_db] f1
  have r1: "save_tweets env0 (FailsAt 1) [tweet_a1, tweet_messy] empty_db = (Inr 0, empty_db)"
    by blast
  from save_tweets_failure[OF open2, of env0 "[tweet_a1, tweet_no_user]" empty_db] f2
  have r2: "save_tweets env0 Available [tweet_a1, tweet_no_user] empty_db = (Inr 0, empty_db)"
    by blast
  from f1 r1 f2 r2 show ?thesis by simp
qed

text \<open>The store becomes unavailable during the batch and the caller is not told: the call
  returns 0, as it does for a batch of duplicates, and raises nothing.\<close>

theorem save_tweets_absorbs_error_counterexample:
  "save_loop env0 (FailsAt 1) [tweet_a1, tweet_messy] empty_db 0 = Inl OperationalError
   \<and> fst (save_tweets env0 (FailsAt 1) [tweet_a1, tweet_messy] empty_db) = Inr 0
   \<and> fst (save_tweets env0 (FailsAt 1) [tweet_a1, tweet_messy] empty_db) \<noteq> Inl OperationalError"
  by code_simp

text \<open>
  C3. As long as the connection is not closed: the rows of \<^verbatim>\<open>tweets\<close> before the call are
  still there, unchanged and in place; the rows after them are the inserted ones, and the
  returned count is their number. When the loop completes, the inserted rows are, in
  batch order, the tweets whose identity was not stored before and did not occur earlier
  in the batch.
\<close>

theorem save_tweets_count:
  assumes "st \<noteq> Closed"
  shows "\<exists>new. tweets (snd (save_tweets env st B d)) = tweets d @ new
        \<and> fst (save_tweets env st B d) = Inr (length new)
        \<and> (\<forall>d1 n. save_loop env st B d 0 = Inr (d1, n) \<longrightarrow>
              map c_tweet_id new = map (tweet_key env) (accepted env (map c_tweet_id (tweets d)) B))"
proof (cases "save_loop env st B d 0")
  case (Inl e)
  with assms have "save_tweets env st B d = (Inr 0, d)" by (rule save_tweets_rolled_back)
  with Inl show ?thesis by simp
next
  case (Inr r)
  obtain d1 n where r: "r = (d1, n)" by (cases r)
  from Inr r have run: "save_loop env Available B d 0 = Inr (d1, n)"
    by (simp add: loop_completes_fault_free)
  from save_loop_Inr[OF run] obtain new where
    new: "tweets d1 = tweets d @ new"
      "map c_tweet_id new = map (tweet_key env) (accepted env (map c_tweet_id (tweets d)) B)"
      "n = length new"
    by auto
  have res: "save_tweets env st B d = (Inr n, if B = [] then d else update_brand_stats env d1)"
    using Inr r by (simp add: save_tweets_success)
  show ?thesis
  proof (cases "B = []")
    case True
    with run have "d1 = d" "n = 0" by auto
    with True new res Inr r show ?thesis by simp
  next
    case False
    with res Inr r new show ?thesis by (simp add: update_brand_stats_frame)
  qed
qed

text \<open>A batch that repeats its first tweet.\<close>

theorem save_tweets_count_witness:
  "save_loop env0 Available [tweet_a1, tweet_messy, tweet_a1] empty_db 0 \<noteq> Inl IntegrityError
   \<and> fst (save_tweets env0 Available [tweet_a1, tweet_messy, tweet_a1] empty_db) = Inr 2
   \<and> map c_tweet_id (tweets (snd (save_tweets env0 Available [tweet_a1, tweet_messy, tweet_a1] empty_db)))
       = [SText ''a1'', SText ''m1'']"
proof -
  obtain d1 n where run: "save_loop env0 Available [tweet_a1, tweet_messy, tweet_a1] empty_db 0 = Inr (d1, n)"
  proof -
    have "case save_loop env0 Available [tweet_a1, tweet_messy, tweet_a1] empty_db 0 of Inl e \<Rightarrow> False | Inr r \<Rightarrow> True"
      by code_simp
    then show ?thesis using that by (auto split: sum.splits)
  qed
  have acc: "map (tweet_key env0) (accepted env0 (map c_tweet_id (tweets empty_db)) [tweet_a1, tweet_messy, tweet_a1])
               = [SText ''a1'', SText ''m1'']"
    by code_simp
  have usable: "Available \<noteq> Closed" by simp
  from save_tweets_count[OF usable, of env0 "[tweet_a1, tweet_messy, tweet_a1]" empty_db] obtain new where
    new: "tweets (snd (save_tweets env0 Available [tweet_a1, tweet_messy, tweet_a1] empty_db)) = tweets empty_db @ new"
      "fst (save_tweets env0 Available [tweet_a1, tweet_messy, tweet_a1] empty_db) = Inr (length new)"
      "map c_tweet_id new = map (tweet_key env0) (accepted env0 (map c_tweet_id (tweets empty_db)) [tweet_a1, tweet_messy, tweet_a1])"
    using run by blast
  from new(3) acc have ids: "map c_tweet_id new = [SText ''a1'', SText ''m1'']" by simp
  then have "length new = 2" by (metis length_map length_Cons list.size(3) numeral_2_eq_2)
  with new(1,2) ids run show ?thesis by (simp add: empty_db_def)
qed

text \<open>
  C6. When the loop completes, the \<^verbatim>\<open>mentions\<close> table has grown by the trimmed non-empty
  string mentions of the inserted tweets, in order and with repetitions, and the rows of
  \<^verbatim>\<open>hashtags\<close> are the earlier ones together with the lowercased and trimmed non-empty
  string tags of the inserted tweets. Entries that are empty or not strings contribute
  no row, and the mention loop never raises on them (the tag loop cannot raise at all).
\<close>

theorem entities_normalized:
  assumes "save_loop env st B d 0 = Inr (d1, n)"
  shows "mentions (snd (save_tweets env st B d))
           = mentions d @ concat (map (mention_rows env) (accepted env (map c_tweet_id (tweets d)) B))
       \<and> set (hashtags (snd (save_tweets env st B d)))
           = set (hashtags d) \<union> (\<Union>t\<in>set (accepted env (map c_tweet_id (tweets d)) B). set (tag_rows env t))
       \<and> (\<forall>tid ms d0. tid \<noteq> SNull \<longrightarrow> (\<exists>d'. save_mentions tid ms d0 = Inr d'))"
proof -
  have run: "save_loop env Available B d 0 = Inr (d1, n)"
    using assms by (rule loop_completes_fault_free)
  note L = save_loop_Inr[OF run]
  have untouched: "B = [] \<Longrightarrow> d1 = d" using run by simp
  have res: "snd (save_tweets env st B d) = (if B = [] then d else update_brand_stats env d1)"
    by (simp add: save_tweets_success[OF assms])
  have m: "mentions (snd (save_tweets env st B d)) = mentions d1"
    unfolding res using untouched by (simp add: update_brand_stats_frame)
  have h: "hashtags (snd (save_tweets env st B d)) = hashtags d1"
    unfolding res using untouched by (simp add: update_brand_stats_frame)
  have never: "\<forall>tid ms d0. tid \<noteq> SNull \<longrightarrow> (\<exists>d'. save_mentions tid ms d0 = Inr d')"
  proof (intro allI impI)
    fix tid :: sqlval and ms d0
    assume "tid \<noteq> SNull"
    from save_mentions_append[OF this, of ms d0]
    show "\<exists>d'. save_mentions tid ms d0 = Inr d'" by (rule exI)
  qed
  note M = L[THEN conjunct2, THEN conjunct2, THEN conjunct2, THEN conjunct1]
  note H = L[THEN conjunct2, THEN conjunct2, THEN conjunct2, THEN conjunct2, THEN conjunct1]
  show ?thesis
    unfolding m h using M H never by (intro conjI)
qed

text \<open>The messy tweet: of five tags and four mentions, the non-empty strings are kept.\<close>

theorem entities_normalized_witness:
  "save_loop env0 Available [tweet_messy] empty_db 0 \<noteq> Inl IntegrityError
   \<and> mentions (snd (save_tweets env0 Available [tweet_messy] empty_db))
       = [(SText ''m1'', ''alice''), (SText ''m1'', ''alice'')]
   \<and> set (hashtags (snd (save_tweets env0 Available [tweet_messy] empty_db))) = {(SText ''m1'', ''ev'')}"
proof -
  obtain d1 n where run: "save_loop env0 Available [tweet_messy] empty_db 0 = Inr (d1, n)"
  proof -
    have "case save_loop env0 Available [tweet_messy] empty_db 0 of Inl e \<Rightarrow> False | Inr r \<Rightarrow> True"
      by code_simp
    then show ?thesis using that by (auto split: sum.splits)
  qed
  have acc: "accepted env0 (map c_tweet_id (tweets empty_db)) [tweet_messy] = [tweet_messy]"
    by (simp add: empty_db_def)
  have m: "mention_rows env0 tweet_messy = [(SText ''m1'', ''alice''), (SText ''m1'', ''alice'')]"
    by code_simp
  have t: "tag_rows env0 tweet_messy = [(SText ''m1'', ''ev''), (SText ''m1'', ''ev'')]"
    by code_simp
  from entities_normalized[OF run] run show ?thesis
    by (simp add: acc m t empty_db_def)
qed

lemma save_tweets_state:
  "snd (save_tweets env st B d) = d
   \<or> (\<exists>d1 n. save_loop env Available B d 0 = Inr (d1, n)
                \<and> snd (save_tweets env st B d) = update_brand_stats env d1)"
proof (cases "B = []")
  case True
  then show ?thesis by (simp add: save_tweets_def)
next
  case False
  show ?thesis
  proof (cases "save_try env st B d")
    case (Inl e)
    with False show ?thesis
      by (simp add: save_tweets_def rollback_def)
  next
    case (Inr r)
    obtain d1 n where r: "r = (d1, n)" by (cases r)
    from Inr r have "save_loop env st B d 0 = Inr (d1, n)"
      by (simp add: save_try_def cursor_def split: if_splits)
    then have "save_loop env Available B d 0 = Inr (d1, n)"
      by (rule loop_completes_fault_free)
    moreover from Inr r False have "snd (save_tweets env st B d) = update_brand_stats env d1"
      by (simp add: save_tweets_def)
    ultimately show ?thesis by blast
  qed
qed

lemma save_tweets_distinct:
  assumes "distinct (hashtags d)"
  shows "distinct (hashtags (snd (save_tweets env st B d)))"
proof -
  from save_tweets_state[of env st B d] show ?thesis
  proof
    assume "snd (save_tweets env st B d) = d"
    with assms show ?thesis by simp
  next
    assume "\<exists>d1 n. save_loop env Available B d 0 = Inr (d1, n)
                \<and> snd (save_tweets env st B d) = update_brand_stats env d1"
    then obtain d1 n where run: "save_loop env Available B d 0 = Inr (d1, n)"
      and res: "snd (save_tweets env st B d) = update_brand_stats env d1"
      by blast
    from save_loop_Inr[OF run] assms have "distinct (hashtags d1)" by blast
    then show ?thesis by (simp add: res update_brand_stats_frame)
  qed
qed

lemma reachable_distinct: "reachable d \<Longrightarrow> distinct (hashtags d)"
  by (induction rule: reachable.induct) (simp_all add: empty_db_def save_tweets_distinct)

lemma distinct_count_le_1: "distinct xs \<Longrightarrow> length (filter (\<lambda>y. y = x) xs) \<le> 1"
  by (induction xs) (auto simp: filter_empty_conv)

text \<open>
  C7. In every state reached from the empty tables by calls of \<^verbatim>\<open>save_tweets\<close>, completed
  or failed, whatever the condition of the store, a pair of tweet identity and tag
  occurs at most once in \<^verbatim>\<open>hashtags\<close>.
\<close>

theorem reachable_tags_unique:
  "reachable d \<Longrightarrow> length (filter (\<lambda>row. row = (tid, tag)) (hashtags d)) \<le> 1"
  by (rule distinct_count_le_1[OF reachable_distinct])

text \<open>The messy tweet carries the tag \<^verbatim>\<open>ev\<close> twice after normalisation.\<close>

theorem reachable_tags_unique_witness:
  "reachable (snd (save_tweets env0 Available [tweet_messy] empty_db))
   \<and> length (filter (\<lambda>row. row = (SText ''m1'', ''ev''))
               (hashtags (snd (save_tweets env0 Available [tweet_messy] empty_db)))) \<le> 1
   \<and> (SText ''m1'', ''ev'') \<in> set (hashtags (snd (save_tweets env0 Available [tweet_messy] empty_db)))"
proof -
  have r: "reachable (snd (save_tweets env0 Available [tweet_messy] empty_db))"
    by (rule reachable.save[OF reachable.init])
  have "hashtags (snd (save_tweets env0 Available [tweet_messy] empty_db)) = [(SText ''m1'', ''ev'')]"
    by code_simp
  then have mem: "(SText ''m1'', ''ev'') \<in> set (hashtags (snd (save_tweets env0 Available [tweet_messy] empty_db)))"
    by simp
  from reachable_tags_unique[OF r, of "SText ''m1''" "''ev''"] r mem show ?thesis by blast
qed

text \<open>
  C8 (as the code has it). After a save of a non-empty batch whose loop completes,
  whatever the state before, every non-empty \<^verbatim>\<open>brand_mentioned\<close> of a stored tweet has
  its trimmed form as the name of a row of \<^verbatim>\<open>brands\<close>.
\<close>

theorem brand_registry_stripped:
  assumes "save_loop env st B d 0 = Inr (d1, n)" and "B \<noteq> []"
  shows "\<forall>r\<in>set (tweets (snd (save_tweets env st B d))). \<forall>s.
            c_brand_mentioned r = SText s \<and> s \<noteq> []
            \<longrightarrow> strip s \<in> b_name ` set (brands (snd (save_tweets env st B d)))"
proof -
  have res: "snd (save_tweets env st B d) = update_brand_stats env d1"
    using assms by (simp add: save_tweets_success)
  show ?thesis
    unfolding res update_brand_stats_names update_brand_stats_frame
  proof (intro ballI allI impI)
    fix r s
    assume r: "r \<in> set (tweets d1)" and s: "c_brand_mentioned r = SText s \<and> s \<noteq> []"
    then have "SText s \<in> c_brand_mentioned ` set (tweets d1)"
      by (metis image_eqI)
    with s show "strip s \<in> b_name ` set (brands d1)
                  \<union> strip ` {s. s \<noteq> [] \<and> SText s \<in> c_brand_mentioned ` set (tweets d1)}"
      by blast
  qed
qed

text \<open>The well-formed tweet registers its brand.\<close>

theorem brand_registry_stripped_witness:
  "save_loop env0 Available [tweet_a1] empty_db 0 \<noteq> Inl IntegrityError \<and> [tweet_a1] \<noteq> []
   \<and> map c_brand_mentioned (tweets (snd (save_tweets env0 Available [tweet_a1] empty_db))) = [SText ''Tesla'']
   \<and> strip ''Tesla'' \<in> b_name ` set (brands (snd (save_tweets env0 Available [tweet_a1] empty_db)))"
proof -
  obtain d1 n where run: "save_loop env0 Available [tweet_a1] empty_db 0 = Inr (d1, n)"
  proof -
    have "case save_loop env0 Available [tweet_a1] empty_db 0 of Inl e \<Rightarrow> False | Inr r \<Rightarrow> True"
      by code_simp
    then show ?thesis using that by (auto split: sum.splits)
  qed
  have ne: "[tweet_a1] \<noteq> []" by simp
  have br: "map c_brand_mentioned (tweets (snd (save_tweets env0 Available [tweet_a1] empty_db))) = [SText ''Tesla'']"
    by code_simp
  then obtain r where rows: "tweets (snd (save_tweets env0 Available [tweet_a1] empty_db)) = [r]"
    and rb: "c_brand_mentioned r = SText ''Tesla''"
    by (auto simp: map_eq_Cons_conv)
  have mem: "r \<in> set (tweets (snd (save_tweets env0 Available [tweet_a1] empty_db)))"
    by (simp add: rows)
  have nonempty: "''Tesla'' \<noteq> []" by simp
  from brand_registry_stripped[OF run ne, rule_format, OF mem conjI[OF rb nonempty]]
  have "strip ''Tesla'' \<in> b_name ` set (brands (snd (save_tweets env0 Available [tweet_a1] empty_db)))" .
  with run ne br show ?thesis by simp
qed

text \<open>The brand of the messy tweet starts with a space: the tweet keeps it as it is, the
  registry has the trimmed name only.\<close>

theorem brand_registry_exact_name_counterexample:
  "fst (save_tweets env0 Available [tweet_messy] empty_db) = Inr 1
   \<and> map c_brand_mentioned (tweets (snd (save_tweets env0 Available [tweet_messy] empty_db))) = [SText '' Tesla'']
   \<and> map b_name (brands (snd (save_tweets env0 Available [tweet_messy] empty_db))) = [''Tesla'']
   \<and> '' Tesla'' \<notin> b_name ` set (brands (snd (save_tweets env0 Available [tweet_messy] empty_db)))"
  by code_simp

section \<open>Properties of get\_daily\_stats\<close>

text \<open>
  C9. For a date given as a non-empty string, \<^verbatim>\<open>total_tweets\<close> is the number of stored
  tweets whose \<^verbatim>\<open>DATE(created_at)\<close> is that date, and when there is none both averages are
  0.0.
\<close>

theorem daily_stats_total:
  assumes "date \<noteq> []"
  shows "total_tweets (get_daily_stats env (Some date) d)
           = card {i. i < length (tweets d) \<and> sql_date env (c_created_at (tweets d ! i)) = SText date}
       \<and> (card {i. i < length (tweets d) \<and> sql_date env (c_created_at (tweets d ! i)) = SText date} = 0
            \<longrightarrow> avg_retweets (get_daily_stats env (Some date) d) = 0
              \<and> avg_favorites (get_daily_stats env (Some date) d) = 0)"
proof -
  have cnt: "length (rows_on env date d)
             = card {i. i < length (tweets d) \<and> sql_date env (c_created_at (tweets d ! i)) = SText date}"
    by (simp add: rows_on_def length_filter_conv_card)
  have tot: "total_tweets (get_daily_stats env (Some date) d) = length (rows_on env date d)"
    using assms by (simp add: get_daily_stats_def Let_def)
  have zero: "rows_on env date d = [] \<Longrightarrow>
               avg_retweets (get_daily_stats env (Some date) d) = 0
             \<and> avg_favorites (get_daily_stats env (Some date) d) = 0"
    using assms by (simp add: get_daily_stats_def Let_def sql_avg_def float_or_zero_def)
  have none: "rows_on env date d = []"
    if "card {i. i < length (tweets d) \<and> sql_date env (c_created_at (tweets d ! i)) = SText date} = 0"
  proof -
    from that have "length (rows_on env date d) = 0" by (simp only: cnt)
    then show ?thesis by simp
  qed
  show ?thesis
    using tot zero none by (simp only: cnt) blast
qed

text \<open>Two tweets of the same day.\<close>

theorem daily_stats_total_witness:
  "''2024-01-15'' \<noteq> []
   \<and> total_tweets (get_daily_stats env0 (Some ''2024-01-15'')
                      (snd (save_tweets env0 Available [tweet_a1, tweet_messy] empty_db))) = 2
   \<and> card {i. i < length (tweets (snd (save_tweets env0 Available [tweet_a1, tweet_messy] empty_db)))
              \<and> sql_date env0 (c_created_at (tweets (snd (save_tweets env0 Available [tweet_a1, tweet_messy] empty_db)) ! i))
                  = SText ''2024-01-15''} = 2"
proof -
  have ne: "''2024-01-15'' \<noteq> []" by simp
  have tot: "total_tweets (get_daily_stats env0 (Some ''2024-01-15'')
                      (snd (save_tweets env0 Available [tweet_a1, tweet_messy] empty_db))) = 2"
    by code_simp
  from daily_stats_total[OF ne, of env0 "snd (save_tweets env0 Available [tweet_a1, tweet_messy] empty_db)"] tot ne
  show ?thesis by simp
qed

end
